theory Spec2Isabelle
  imports Main "HOL-Library.Word"
begin

section \<open>Display server detection (services/display\_server.py)\<close>

datatype DisplayServer = X11 | WAYLAND | UNKNOWN

text \<open>\<open>os.environ\<close>: a dictionary from variable names to values.\<close>

type_synonym environ = "string \<rightharpoonup> string"

text \<open>\<open>os.environ.get(key, default)\<close>.\<close>

definition environ_get :: "environ \<Rightarrow> string \<Rightarrow> string \<Rightarrow> string" where
  "environ_get environ key dflt = (case environ key of None \<Rightarrow> dflt | Some v \<Rightarrow> v)"

text \<open>
  \<open>str.lower()\<close> on the characters \<open>A\<close>..\<open>Z\<close>. The results are only compared with
  \<open>wayland\<close> and \<open>x11\<close>, whose letters are the lower case of no character outside ASCII,
  so the comparison agrees with Python's Unicode-aware \<open>lower\<close> on every value.
\<close>

definition lower_char :: "char \<Rightarrow> char" where
  "lower_char c =
     (let n = (of_char c :: nat) in if 65 \<le> n \<and> n \<le> 90 then char_of (n + 32) else c)"

definition lower :: "string \<Rightarrow> string" where
  "lower s = map lower_char s"

text \<open>\<open>get_display_server()\<close>, reading the environment it is given.\<close>

definition get_display_server :: "environ \<Rightarrow> DisplayServer" where
  "get_display_server environ =
     (let session_type = lower (environ_get environ ''XDG_SESSION_TYPE'' '''') in
      if session_type = ''wayland'' then WAYLAND
      else if session_type = ''x11'' then X11
      else
        let gdk_backend = lower (environ_get environ ''GDK_BACKEND'' '''') in
        if gdk_backend = ''wayland'' then WAYLAND
        else if gdk_backend = ''x11'' then X11
        else if environ_get environ ''WAYLAND_DISPLAY'' '''' \<noteq> '''' then WAYLAND
        else if environ_get environ ''DISPLAY'' '''' \<noteq> '''' then X11
        else UNKNOWN)"

subsection \<open>The priority order of the specification\<close>

text \<open>
  The four signals of the specification, in its order: the session type, the backend
  override, a Wayland display handle, an X11 display handle. Each either decides the
  display server or abstains; the first one that decides wins, and \<open>UNKNOWN\<close> is the
  answer when all abstain.
\<close>

datatype signal = SessionType | BackendOverride | WaylandHandle | X11Handle

definition named_server :: "string \<Rightarrow> DisplayServer option" where
  "named_server v =
     (if v = ''wayland'' then Some WAYLAND else if v = ''x11'' then Some X11 else None)"

fun decide :: "environ \<Rightarrow> signal \<Rightarrow> DisplayServer option" where
  "decide e SessionType = named_server (lower (environ_get e ''XDG_SESSION_TYPE'' ''''))"
| "decide e BackendOverride = named_server (lower (environ_get e ''GDK_BACKEND'' ''''))"
| "decide e WaylandHandle =
     (if environ_get e ''WAYLAND_DISPLAY'' '''' \<noteq> '''' then Some WAYLAND else None)"
| "decide e X11Handle =
     (if environ_get e ''DISPLAY'' '''' \<noteq> '''' then Some X11 else None)"

fun first_match :: "('a \<Rightarrow> 'b option) \<Rightarrow> 'a list \<Rightarrow> 'b option" where
  "first_match f [] = None"
| "first_match f (x # xs) = (case f x of Some y \<Rightarrow> Some y | None \<Rightarrow> first_match f xs)"

definition detect_by_priority :: "environ \<Rightarrow> DisplayServer" where
  "detect_by_priority e =
     (case first_match (decide e) [SessionType, BackendOverride, WaylandHandle, X11Handle] of
        Some d \<Rightarrow> d
      | None \<Rightarrow> UNKNOWN)"


section \<open>Recording supervisor (services/video\_recording.py)\<close>

datatype RecordingState = IDLE | PREPARING | RECORDING | STOPPING | COMPLETED | FAILED

text \<open>A \<open>subprocess.Popen\<close> handle, identified by its process id.\<close>

type_synonym proc = nat

text \<open>
  What the service does to the outside: the calls of its four callbacks, and the calls
  it makes on processes and on the GLib timer, in the order in which they happen.
\<close>

datatype event =
    StateChanged RecordingState
  | DurationChanged nat
  | RecordingCompleted string
  | RecordingFailed string
  | Popen "string list"
  | Communicate proc
  | Kill proc
  | ClosePipes proc
  | TimeoutAdd nat
  | SourceRemove nat

text \<open>
  The file system as \<open>os.path.exists\<close>, \<open>os.path.getsize\<close>, \<open>os.remove\<close> and
  \<open>Path.mkdir\<close> see it: a path names a regular file or a directory, each with the size
  that \<open>stat\<close> reports.
\<close>

datatype fs_node = File nat | Dir nat

datatype exn = FileExistsError | IsADirectoryError | FileNotFoundError | TypeError

record world =
  fs :: "string \<rightharpoonup> fs_node"
  calls :: "event list"

text \<open>
  The fields of \<open>VideoRecordingService\<close>. The duration is counted in ticks of 0.1 s.
  A callback field is \<open>True\<close> when a callable is installed and \<open>False\<close> when it is
  \<open>None\<close>; the calls themselves are recorded in \<open>calls\<close>.
\<close>

record service =
  display_server :: DisplayServer
  process :: "proc option"
  state :: RecordingState
  duration_seconds :: nat
  timer_id :: "nat option"
  current_path :: "string option"
  pipewire_node_id :: "string option"
  on_state_changed :: bool
  on_duration_changed :: bool
  on_recording_completed :: bool
  on_recording_failed :: bool

text \<open>\<open>__init__\<close>.\<close>

definition VideoRecordingService :: "DisplayServer \<Rightarrow> service" where
  "VideoRecordingService ds =
     \<lparr>display_server = ds, process = None, state = IDLE, duration_seconds = 0,
      timer_id = None, current_path = None, pipewire_node_id = None,
      on_state_changed = False, on_duration_changed = False,
      on_recording_completed = False, on_recording_failed = False\<rparr>"

text \<open>What the service reads from its surroundings when a recording starts.\<close>

record start_env =
  environ :: environ
  gettempdir :: string
  timestamp :: string
  popen :: "string list \<Rightarrow> string + proc"
  timeout_add :: nat

definition emit :: "event \<Rightarrow> world \<Rightarrow> world" where
  "emit e w = w\<lparr>calls := calls w @ [e]\<rparr>"

text \<open>\<open>_set_state\<close>.\<close>

definition set_state :: "RecordingState \<Rightarrow> service \<times> world \<Rightarrow> service \<times> world" where
  "set_state st sw =
     (case sw of (s, w) \<Rightarrow>
        if state s \<noteq> st
        then (s\<lparr>state := st\<rparr>, if on_state_changed s then emit (StateChanged st) w else w)
        else (s, w))"

subsection \<open>Python's \<open>str\<close> of an integer\<close>

definition digit_char :: "nat \<Rightarrow> char" where
  "digit_char d = ''0123456789'' ! d"

fun digits :: "nat \<Rightarrow> string" where
  "digits n = (if n < 10 then [digit_char n] else digits (n div 10) @ [digit_char (n mod 10)])"

declare digits.simps [simp del]

definition str_int :: "int \<Rightarrow> string" where
  "str_int i = (if i < 0 then CHR ''-'' # digits (nat (- i)) else digits (nat i))"

subsection \<open>The encoder command\<close>

text \<open>
  \<open>_build_ffmpeg_command\<close>. The last argument is \<open>self._current_path\<close>; were it
  \<open>None\<close>, joining the command for the log line would raise \<open>TypeError\<close> inside the
  \<open>try\<close> of \<open>_start_recording\<close>, which is the \<open>Inl\<close> result here.
\<close>

definition build_ffmpeg_command ::
  "start_env \<Rightarrow> service \<Rightarrow> (int \<times> int \<times> int \<times> int) option \<Rightarrow> exn + string list" where
  "build_ffmpeg_command env s region =
     (let cmd = [''ffmpeg'', ''-y''];
          cmd =
            (case (display_server s, pipewire_node_id s) of
               (WAYLAND, Some (c # cs)) \<Rightarrow> cmd @ [''-f'', ''pipewire'', ''-i'', c # cs]
             | _ \<Rightarrow>
                 let display = environ_get (environ env) ''DISPLAY'' '':0'';
                     display =
                       (if CHR ''.'' \<in> set display
                        then takeWhile (\<lambda>c. c \<noteq> CHR ''.'') display else display);
                     cmd = cmd @ [''-f'', ''x11grab'', ''-framerate'', ''30'', ''-draw_mouse'', ''0'']
                 in (case region of
                       Some (x, y, w, h) \<Rightarrow>
                         let x = max 0 x; y = max 0 y
                         in cmd @ [''-video_size'', str_int w @ ''x'' @ str_int h,
                                   ''-i'', display @ ''+'' @ str_int x @ '','' @ str_int y]
                     | None \<Rightarrow> cmd @ [''-i'', display]))
      in case current_path s of
           None \<Rightarrow> Inl TypeError
         | Some path \<Rightarrow>
             Inr (cmd @ [''-c:v'', ''libx264'', ''-preset'', ''ultrafast'', ''-crf'', ''23'',
                         ''-pix_fmt'', ''yuv420p'', ''-r'', ''30'', path]))"

subsection \<open>The duration timer\<close>

text \<open>\<open>_start_duration_timer\<close> and \<open>_stop_duration_timer\<close>.\<close>

definition start_duration_timer :: "start_env \<Rightarrow> service \<times> world \<Rightarrow> service \<times> world" where
  "start_duration_timer env sw =
     (case sw of (s, w) \<Rightarrow>
        (s\<lparr>duration_seconds := 0, timer_id := Some (timeout_add env)\<rparr>,
         emit (TimeoutAdd (timeout_add env)) w))"

definition stop_duration_timer :: "service \<times> world \<Rightarrow> service \<times> world" where
  "stop_duration_timer sw =
     (case sw of (s, w) \<Rightarrow>
        (case timer_id s of
           Some t \<Rightarrow> (s\<lparr>timer_id := None\<rparr>, emit (SourceRemove t) w)
         | None \<Rightarrow> (s, w)))"

text \<open>The body of the timer's \<open>tick\<close>; it answers whether the timer goes on.\<close>

definition tick :: "service \<times> world \<Rightarrow> bool \<times> service \<times> world" where
  "tick sw =
     (case sw of (s, w) \<Rightarrow>
        if state s = RECORDING
        then (let s = s\<lparr>duration_seconds := duration_seconds s + 1\<rparr>
              in (True, s, if on_duration_changed s then emit (DurationChanged (duration_seconds s)) w
                           else w))
        else (False, s, w))"

subsection \<open>Starting\<close>

text \<open>\<open>Path.mkdir(exist_ok=True)\<close>: a regular file in the way raises \<open>FileExistsError\<close>.\<close>

definition mkdir_exist_ok :: "world \<Rightarrow> string \<Rightarrow> exn + world" where
  "mkdir_exist_ok w p =
     (case fs w p of
        Some (File n) \<Rightarrow> Inl FileExistsError
      | Some (Dir n) \<Rightarrow> Inr w
      | None \<Rightarrow> Inr (w\<lparr>fs := (fs w)(p \<mapsto> Dir 0)\<rparr>))"

definition report_failed :: "string \<Rightarrow> service \<times> world \<Rightarrow> service \<times> world" where
  "report_failed msg sw =
     (case sw of (s, w) \<Rightarrow> (s, if on_recording_failed s then emit (RecordingFailed msg) w else w))"

definition report_completed :: "string \<Rightarrow> service \<times> world \<Rightarrow> service \<times> world" where
  "report_completed path sw =
     (case sw of (s, w) \<Rightarrow>
        (s, if on_recording_completed s then emit (RecordingCompleted path) w else w))"

definition exn_text :: "exn \<Rightarrow> string" where
  "exn_text e =
     (case e of FileExistsError \<Rightarrow> ''FileExistsError'' | IsADirectoryError \<Rightarrow> ''IsADirectoryError''
      | FileNotFoundError \<Rightarrow> ''FileNotFoundError'' | TypeError \<Rightarrow> ''TypeError'')"

text \<open>
  \<open>_start_recording\<close>. The first component of the result is the exception that leaves
  the method, if any: \<open>mkdir\<close> is called outside the \<open>try\<close>.
\<close>

definition start_recording ::
  "start_env \<Rightarrow> (int \<times> int \<times> int \<times> int) option \<Rightarrow> service \<times> world
     \<Rightarrow> exn option \<times> service \<times> world" where
  "start_recording env region sw =
     (if state (fst sw) \<in> {RECORDING, PREPARING, STOPPING} then (None, sw)
      else
        case set_state PREPARING sw of (s1, w1) \<Rightarrow>
        let temp_dir = gettempdir env @ ''/snipr'' in
        case mkdir_exist_ok w1 temp_dir of
          Inl e \<Rightarrow> (Some e, s1, w1)
        | Inr w2 \<Rightarrow>
            let s2 = s1\<lparr>current_path := Some (temp_dir @ ''/Recording_'' @ timestamp env @ ''.mp4'')\<rparr>
            in (case build_ffmpeg_command env s2 region of
                  Inl e \<Rightarrow>
                    (None, report_failed (''Failed to start recording: '' @ exn_text e)
                             (set_state FAILED (s2, w2)))
                | Inr cmd \<Rightarrow>
                    (case popen env cmd of
                       Inr p \<Rightarrow>
                         (None, start_duration_timer env
                                  (set_state RECORDING
                                     (s2\<lparr>process := Some p, duration_seconds := 0\<rparr>,
                                      emit (Popen cmd) w2)))
                     | Inl e \<Rightarrow>
                         (None, report_failed (''Failed to start recording: '' @ e)
                                  (set_state FAILED (s2, emit (Popen cmd) w2))))))"

text \<open>\<open>start_recording_region\<close>, \<open>start_recording_fullscreen\<close>, \<open>start_recording_window\<close>.\<close>

definition start_recording_region ::
  "start_env \<Rightarrow> int \<Rightarrow> int \<Rightarrow> int \<Rightarrow> int \<Rightarrow> service \<times> world \<Rightarrow> exn option \<times> service \<times> world" where
  "start_recording_region env x y width height sw =
     (let width = width + (width mod 2);
          height = height + (height mod 2)
      in start_recording env (Some (x, y, width, height)) sw)"

definition start_recording_fullscreen ::
  "start_env \<Rightarrow> service \<times> world \<Rightarrow> exn option \<times> service \<times> world" where
  "start_recording_fullscreen env sw = start_recording env None sw"

definition start_recording_window ::
  "start_env \<Rightarrow> int \<Rightarrow> int \<Rightarrow> int \<Rightarrow> int \<Rightarrow> service \<times> world \<Rightarrow> exn option \<times> service \<times> world" where
  "start_recording_window env x y width height sw = start_recording_region env x y width height sw"


subsection \<open>Stopping\<close>

text \<open>
  \<open>stop_recording\<close>, the part that runs in the caller: the second component is the
  process handed to the worker thread, if one is started.
\<close>

definition stop_recording :: "service \<times> world \<Rightarrow> (service \<times> world) \<times> proc option" where
  "stop_recording sw =
     (case process (fst sw) of
        None \<Rightarrow> (sw, None)
      | Some p \<Rightarrow>
          if state (fst sw) \<noteq> RECORDING then (sw, None)
          else (case stop_duration_timer (set_state STOPPING sw) of
                  (s, w) \<Rightarrow> ((s\<lparr>process := None\<rparr>, w), Some p)))"

text \<open>
  How \<open>proc.communicate(input=b"q", timeout=10)\<close> ends: the process exits with a
  return code and its decoded error stream, the timeout expires, or another exception
  is raised.
\<close>

datatype communicate = Exited int string | TimeoutExpired | OtherException string

text \<open>The closures that the worker hands to \<open>GLib.idle_add\<close>, with what they captured.\<close>

datatype idle_callback =
    OnDone int "string option" int string
  | OnTimeout
  | OnError string

definition exists :: "world \<Rightarrow> string \<Rightarrow> bool" where
  "exists w p = (fs w p \<noteq> None)"

definition getsize :: "world \<Rightarrow> string \<Rightarrow> int" where
  "getsize w p = (case fs w p of Some (File n) \<Rightarrow> int n | Some (Dir n) \<Rightarrow> int n | None \<Rightarrow> 0)"

text \<open>\<open>_stop_worker\<close>, run by the worker thread on the process it was given.\<close>

definition stop_worker ::
  "proc \<Rightarrow> communicate \<Rightarrow> service \<times> world \<Rightarrow> idle_callback \<times> world" where
  "stop_worker p outcome sw =
     (case sw of (s, w) \<Rightarrow>
        let w = emit (Communicate p) w in
        case outcome of
          Exited returncode stderr_data \<Rightarrow>
            let file_path = current_path s;
                file_size =
                  (case file_path of
                     Some path \<Rightarrow> if path \<noteq> [] \<and> exists w path then getsize w path else - 1
                   | None \<Rightarrow> - 1)
            in (OnDone returncode file_path file_size stderr_data, w)
        | TimeoutExpired \<Rightarrow> (OnTimeout, emit (Kill p) w)
        | OtherException e \<Rightarrow> (OnError e, emit (ClosePipes p) w))"

text \<open>\<open>_on_done\<close>, \<open>_on_timeout\<close> and \<open>_on_error\<close>, run from the main loop.\<close>

definition run_idle :: "idle_callback \<Rightarrow> service \<times> world \<Rightarrow> service \<times> world" where
  "run_idle cb sw =
     (case cb of
        OnDone returncode file_path file_size stderr_data \<Rightarrow>
          (case file_path of
             Some (c # cs) \<Rightarrow>
               if returncode = 0 \<and> file_size > 0
               then report_completed (c # cs) (set_state COMPLETED sw)
               else report_failed
                      (''FFmpeg exited with code '' @ str_int returncode @ '': ''
                         @ drop (length stderr_data - 500) stderr_data)
                      (set_state FAILED sw)
           | _ \<Rightarrow>
               report_failed
                 (''FFmpeg exited with code '' @ str_int returncode @ '': ''
                    @ drop (length stderr_data - 500) stderr_data)
                 (set_state FAILED sw))
      | OnTimeout \<Rightarrow> report_failed ''Recording stop timed out'' (set_state FAILED sw)
      | OnError err_msg \<Rightarrow> report_failed err_msg (set_state FAILED sw))"

text \<open>
  A stop whose worker and idle callback run before anything else happens to the service.
\<close>

definition stop_and_drain :: "communicate \<Rightarrow> service \<times> world \<Rightarrow> service \<times> world" where
  "stop_and_drain outcome sw =
     (case stop_recording sw of
        (sw1, None) \<Rightarrow> sw1
      | (sw1, Some p) \<Rightarrow>
          (case stop_worker p outcome sw1 of (cb, w2) \<Rightarrow> run_idle cb (fst sw1, w2)))"

subsection \<open>Cancelling\<close>

text \<open>\<open>os.remove\<close>: removes a regular file, raises \<open>OSError\<close> otherwise.\<close>

definition os_remove :: "world \<Rightarrow> string \<Rightarrow> exn + world" where
  "os_remove w p =
     (case fs w p of
        Some (File n) \<Rightarrow> Inr (w\<lparr>fs := (fs w)(p := None)\<rparr>)
      | Some (Dir n) \<Rightarrow> Inl IsADirectoryError
      | None \<Rightarrow> Inl FileNotFoundError)"

text \<open>
  \<open>cancel_recording\<close>. An exception of \<open>kill\<close> or \<open>wait\<close> is passed over, and so is an
  \<open>OSError\<close> of \<open>os.remove\<close>.
\<close>

definition cancel_recording :: "service \<times> world \<Rightarrow> service \<times> world" where
  "cancel_recording sw =
     (case stop_duration_timer sw of (s, w) \<Rightarrow>
      case (case process s of
              Some p \<Rightarrow> (s\<lparr>process := None\<rparr>, emit (ClosePipes p) (emit (Kill p) w))
            | None \<Rightarrow> (s, w)) of (s, w) \<Rightarrow>
      let w = (case current_path s of
                 Some (c # cs) \<Rightarrow>
                   if exists w (c # cs)
                   then (case os_remove w (c # cs) of Inr w' \<Rightarrow> w' | Inl e \<Rightarrow> w)
                   else w
               | _ \<Rightarrow> w)
      in set_state IDLE (s, w))"

text \<open>\<open>set_pipewire_node\<close> and \<open>cleanup\<close>.\<close>

definition set_pipewire_node :: "string \<Rightarrow> service \<times> world \<Rightarrow> service \<times> world" where
  "set_pipewire_node node_id sw = (case sw of (s, w) \<Rightarrow> (s\<lparr>pipewire_node_id := Some node_id\<rparr>, w))"

definition cleanup :: "service \<times> world \<Rightarrow> service \<times> world" where
  "cleanup sw = cancel_recording sw"

subsection \<open>Histories of the service\<close>

text \<open>
  Everything that can happen to a service: a call of one of its public methods, a tick
  of its timer, a stop worker finishing, an idle callback running. A worker may finish
  and an idle callback may run at any point of a history, which covers every interleaving
  of the worker thread with the calls of the user interface.
\<close>

datatype op =
    StartRegion start_env int int int int
  | StartFullscreen start_env
  | StartWindow start_env int int int int
  | Stop
  | Worker proc communicate
  | Idle idle_callback
  | Cancel
  | Tick
  | SetPipewireNode string
  | Cleanup

fun step :: "op \<Rightarrow> service \<times> world \<Rightarrow> service \<times> world" where
  "step (StartRegion env x y w h) sw = snd (start_recording_region env x y w h sw)"
| "step (StartFullscreen env) sw = snd (start_recording_fullscreen env sw)"
| "step (StartWindow env x y w h) sw = snd (start_recording_window env x y w h sw)"
| "step Stop sw = fst (stop_recording sw)"
| "step (Worker p outcome) sw = (fst sw, snd (stop_worker p outcome sw))"
| "step (Idle cb) sw = run_idle cb sw"
| "step Cancel sw = cancel_recording sw"
| "step Tick sw = snd (tick sw)"
| "step (SetPipewireNode n) sw = set_pipewire_node n sw"
| "step Cleanup sw = cleanup sw"

fun run :: "op list \<Rightarrow> service \<times> world \<Rightarrow> service \<times> world" where
  "run [] sw = sw"
| "run (x # xs) sw = run xs (step x sw)"

text \<open>The values with which \<open>on_state_changed\<close> was called, in order.\<close>

fun state_notifications :: "event list \<Rightarrow> RecordingState list" where
  "state_notifications [] = []"
| "state_notifications (StateChanged st # es) = st # state_notifications es"
| "state_notifications (e # es) = state_notifications es"

text \<open>The paths with which \<open>on_recording_completed\<close> was called, in order.\<close>

fun completions :: "event list \<Rightarrow> string list" where
  "completions [] = []"
| "completions (RecordingCompleted p # es) = p # completions es"
| "completions (e # es) = completions es"

text \<open>The messages with which \<open>on_recording_failed\<close> was called, in order.\<close>

fun failures :: "event list \<Rightarrow> string list" where
  "failures [] = []"
| "failures (RecordingFailed m # es) = m # failures es"
| "failures (e # es) = failures es"

text \<open>The commands with which an encoder process was launched, in order.\<close>

fun launches :: "event list \<Rightarrow> string list list" where
  "launches [] = []"
| "launches (Popen cmd # es) = cmd # launches es"
| "launches (e # es) = launches es"

text \<open>The argument that follows \<open>-video_size\<close> in a command, if there is one.\<close>

fun video_size_arg :: "string list \<Rightarrow> string option" where
  "video_size_arg (a # b # rest) = (if a = ''-video_size'' then Some b else video_size_arg (b # rest))"
| "video_size_arg _ = None"

text \<open>
  Whether the encoder reads a PipeWire node (the first branch of
  \<open>_build_ffmpeg_command\<close>) rather than grabbing the X11 display.
\<close>

definition uses_pipewire :: "service \<Rightarrow> bool" where
  "uses_pipewire s =
     (case (display_server s, pipewire_node_id s) of
        (WAYLAND, Some (c # cs)) \<Rightarrow> True
      | _ \<Rightarrow> False)"

subsection \<open>Example inputs\<close>

text \<open>
  A service with the four callbacks installed, as \<open>MainWindow.__init__\<close> does, and
  surroundings in which launching the encoder succeeds.
\<close>

definition ex_service :: service where
  "ex_service =
     (VideoRecordingService X11)
       \<lparr>on_state_changed := True, on_duration_changed := True,
        on_recording_completed := True, on_recording_failed := True\<rparr>"

definition ex_env :: start_env where
  "ex_env =
     \<lparr>environ = [''DISPLAY'' \<mapsto> '':0.0''], gettempdir = ''/tmp'',
      timestamp = ''20260101_120000'', popen = (\<lambda>cmd. Inr 4242), timeout_add = 7\<rparr>"

definition ex_path :: string where
  "ex_path = ''/tmp/snipr/Recording_20260101_120000.mp4''"

definition ex_world :: world where
  "ex_world = \<lparr>fs = [''/tmp/snipr'' \<mapsto> Dir 4096], calls = []\<rparr>"

text \<open>The same, with a directory, and with a written file, at the output path.\<close>

definition ex_world_dir :: world where
  "ex_world_dir = \<lparr>fs = [''/tmp/snipr'' \<mapsto> Dir 4096, ex_path \<mapsto> Dir 4096], calls = []\<rparr>"

definition ex_world_file :: world where
  "ex_world_file = \<lparr>fs = [''/tmp/snipr'' \<mapsto> Dir 4096, ex_path \<mapsto> File 1024], calls = []\<rparr>"

text \<open>
  A service whose first recording was started, stopped and completed: the encoder
  exited with code 0 and left a file of 1024 bytes.
\<close>

definition ex_completed :: "service \<times> world" where
  "ex_completed =
     stop_and_drain (Exited 0 [])
       (snd (start_recording_fullscreen ex_env (ex_service, ex_world_file)))"

subsection \<open>Invariants of a history\<close>

text \<open>While the state is \<open>RECORDING\<close> there is a process and a non-empty output path.\<close>

definition recording_has_job :: "service \<Rightarrow> bool" where
  "recording_has_job s =
     (state s = RECORDING \<longrightarrow>
        process s \<noteq> None \<and> current_path s \<noteq> None \<and> current_path s \<noteq> Some [])"

text \<open>
  No two successive calls of \<open>on_state_changed\<close> carry the same value, and while the
  callback is installed the last value it was called with is the current state.
\<close>

definition notified_consistent :: "service \<times> world \<Rightarrow> bool" where
  "notified_consistent sw =
     (let ns = state_notifications (calls (snd sw))
      in distinct_adj ns \<and> (on_state_changed (fst sw) \<longrightarrow> ns \<noteq> [] \<longrightarrow> last ns = state (fst sw)))"

section \<open>Screen capture backends\<close>

subsection \<open>Images\<close>

type_synonym byte = "8 word"

text \<open>
  A PIL image: its mode, its size, and its rows of pixels, a pixel being the list of its
  bands. Only the modes that the capture code uses occur.
\<close>

datatype mode = L | RGB | RGBA | RGBX

record image =
  mode :: mode
  im_width :: nat
  im_height :: nat
  pixels :: "byte list list list"

text \<open>A \<open>GdkPixbuf.Pixbuf\<close>: three channels, or four when it has an alpha channel.\<close>

record pixbuf =
  has_alpha :: bool
  pb_width :: nat
  pb_height :: nat
  pb_pixels :: "byte list list list"

datatype error =
    ConnectionClosedError
  | BadMatch
  | ValueError
  | OSError
  | GLibError string
  | RuntimeError string

text \<open>Cutting a list of \<open>w * h\<close> pixels into \<open>h\<close> rows of \<open>w\<close>.\<close>

fun chunk_rows :: "nat \<Rightarrow> nat \<Rightarrow> 'a list \<Rightarrow> 'a list list" where
  "chunk_rows w 0 ps = []"
| "chunk_rows w (Suc h) ps = take w ps # chunk_rows w h (drop w ps)"

text \<open>The raw decoder \<open>BGRX\<close>: four bytes per pixel, stored as R, G, B, X.\<close>

fun unpack_bgrx :: "byte list \<Rightarrow> byte list list" where
  "unpack_bgrx (b # g # r # x # rest) = [r, g, b, x] # unpack_bgrx rest"
| "unpack_bgrx _ = []"

text \<open>
  \<open>Image.frombytes("RGBX", (width, height), data, "raw", "BGRX")\<close>: a negative size
  and too few bytes raise \<open>ValueError\<close>.
\<close>

definition frombytes :: "int \<Rightarrow> int \<Rightarrow> byte list \<Rightarrow> error + image" where
  "frombytes w h data =
     (if w < 0 \<or> h < 0 then Inl ValueError
      else if length data < 4 * nat w * nat h then Inl ValueError
      else Inr \<lparr>mode = RGBX, im_width = nat w, im_height = nat h,
                pixels = chunk_rows (nat w) (nat h) (unpack_bgrx (take (4 * nat w * nat h) data))\<rparr>)"

text \<open>\<open>image.convert("RGB")\<close> and \<open>image.convert("RGBA")\<close>, pixel by pixel.\<close>

definition to_rgb :: "mode \<Rightarrow> byte list \<Rightarrow> byte list" where
  "to_rgb m p = (case m of L \<Rightarrow> take 1 p @ take 1 p @ take 1 p | _ \<Rightarrow> take 3 p)"

definition convert_rgb :: "image \<Rightarrow> image" where
  "convert_rgb im = im\<lparr>mode := RGB, pixels := map (map (to_rgb (mode im))) (pixels im)\<rparr>"

definition to_rgba :: "mode \<Rightarrow> byte list \<Rightarrow> byte list" where
  "to_rgba m p = (case m of RGBA \<Rightarrow> p | _ \<Rightarrow> to_rgb m p @ [255])"

definition convert_rgba :: "image \<Rightarrow> image" where
  "convert_rgba im = im\<lparr>mode := RGBA, pixels := map (map (to_rgba (mode im))) (pixels im)\<rparr>"

text \<open>\<open>Image.new("L", (width, height), 0)\<close>.\<close>

definition new_L :: "int \<Rightarrow> int \<Rightarrow> error + image" where
  "new_L w h =
     (if w < 0 \<or> h < 0 then Inl ValueError
      else Inr \<lparr>mode = L, im_width = nat w, im_height = nat h,
                pixels = replicate (nat h) (replicate (nat w) [0])\<rparr>)"

text \<open>
  \<open>image.putalpha(msk)\<close> on an \<open>RGBA\<close> image with an \<open>L\<close> mask: the alpha band of
  every pixel becomes the mask's value there. A mask of another size raises
  \<open>ValueError\<close>.
\<close>

definition putalpha :: "image \<Rightarrow> image \<Rightarrow> error + image" where
  "putalpha im msk =
     (if im_width msk \<noteq> im_width im \<or> im_height msk \<noteq> im_height im then Inl ValueError
      else Inr (im\<lparr>pixels := map2 (map2 (\<lambda>p m. take 3 p @ take 1 m)) (pixels im) (pixels msk)\<rparr>))"

text \<open>
  Saving an image as PNG and loading the PNG into a pixbuf, which is what
  \<open>_pil_to_pixbuf\<close> and the end of the portal's \<open>capture_freeform\<close> do. PNG is
  lossless; it has no image of width or height zero and no mode \<open>RGBX\<close>, and a
  greyscale PNG is loaded as RGB.
\<close>

definition pil_to_pixbuf :: "image \<Rightarrow> error + pixbuf" where
  "pil_to_pixbuf im =
     (if im_width im = 0 \<or> im_height im = 0 then Inl OSError
      else case mode im of
        RGBX \<Rightarrow> Inl OSError
      | RGBA \<Rightarrow> Inr \<lparr>has_alpha = True, pb_width = im_width im, pb_height = im_height im,
                        pb_pixels = pixels im\<rparr>
      | _ \<Rightarrow> Inr \<lparr>has_alpha = False, pb_width = im_width im, pb_height = im_height im,
                     pb_pixels = map (map (to_rgb (mode im))) (pixels im)\<rparr>)"

text \<open>The way back: a pixbuf saved as PNG and opened with PIL.\<close>

definition pixbuf_to_pil :: "pixbuf \<Rightarrow> image" where
  "pixbuf_to_pil pb =
     \<lparr>mode = (if has_alpha pb then RGBA else RGB), im_width = pb_width pb, im_height = pb_height pb,
      pixels = pb_pixels pb\<rparr>"

text \<open>The rectangle of width \<open>w\<close> and height \<open>h\<close> at \<open>(x, y)\<close> of rows of pixels.\<close>

definition crop_rows :: "nat \<Rightarrow> nat \<Rightarrow> nat \<Rightarrow> nat \<Rightarrow> 'a list list \<Rightarrow> 'a list list" where
  "crop_rows x y w h rs = map (\<lambda>r. take w (drop x r)) (take h (drop y rs))"

text \<open>
  \<open>pixbuf.new_subpixbuf(x, y, width, height)\<close>: \<open>None\<close> unless the rectangle is not
  empty and lies within the pixbuf.
\<close>

definition new_subpixbuf :: "pixbuf \<Rightarrow> int \<Rightarrow> int \<Rightarrow> int \<Rightarrow> int \<Rightarrow> pixbuf option" where
  "new_subpixbuf pb x y w h =
     (if 0 \<le> x \<and> 0 \<le> y \<and> 0 < w \<and> 0 < h
         \<and> x + w \<le> int (pb_width pb) \<and> y + h \<le> int (pb_height pb)
      then Some \<lparr>has_alpha = has_alpha pb, pb_width = nat w, pb_height = nat h,
                 pb_pixels = crop_rows (nat x) (nat y) (nat w) (nat h) (pb_pixels pb)\<rparr>
      else None)"

text \<open>
  \<open>image.crop((x, y, x + width, y + height))\<close>: the pixels outside the image are
  zero in every band; a negative width or height raises \<open>ValueError\<close>.
\<close>

definition bands :: "mode \<Rightarrow> nat" where
  "bands m = (case m of L \<Rightarrow> 1 | RGB \<Rightarrow> 3 | _ \<Rightarrow> 4)"

definition pixel_at :: "image \<Rightarrow> int \<Rightarrow> int \<Rightarrow> byte list" where
  "pixel_at im c r =
     (if 0 \<le> c \<and> c < int (im_width im) \<and> 0 \<le> r \<and> r < int (im_height im)
      then pixels im ! nat r ! nat c
      else replicate (bands (mode im)) 0)"

definition crop :: "image \<Rightarrow> int \<Rightarrow> int \<Rightarrow> int \<Rightarrow> int \<Rightarrow> error + image" where
  "crop im x y w h =
     (if w < 0 \<or> h < 0 then Inl ValueError
      else Inr (im\<lparr>im_width := nat w, im_height := nat h,
                   pixels := map (\<lambda>r. map (\<lambda>c. pixel_at im (x + int c) (y + int r)) [0..<nat w])
                               [0..<nat h]\<rparr>))"

text \<open>
  The mask of \<open>capture_freeform\<close>, common to both backends: a black mask of the size
  of the box, on which the polygon is drawn in white when it has at least three
  points. The rasteriser \<open>ImageDraw.polygon\<close> is a parameter.
\<close>

type_synonym rasteriser = "(int \<times> int) list \<Rightarrow> image \<Rightarrow> image"

definition polygon_mask ::
  "rasteriser \<Rightarrow> int \<Rightarrow> int \<Rightarrow> int \<Rightarrow> int \<Rightarrow> (int \<times> int) list \<Rightarrow> error + image" where
  "polygon_mask polygon x y w h points =
     (case new_L w h of
        Inl e \<Rightarrow> Inl e
      | Inr msk \<Rightarrow>
          let local_points = map (\<lambda>(px, py). (px - x, py - y)) points
          in Inr (if length local_points \<ge> 3 then polygon local_points msk else msk))"

subsection \<open>The X11 backend (services/screen\_capture\_x11.py)\<close>

text \<open>
  The display connection and the root window behind it: whether the connection is
  open, the size of the root window, and the four bytes B, G, R, X that the server
  holds for the pixel in column \<open>c\<close> and row \<open>r\<close>.
\<close>

record xdisplay =
  connected :: bool
  root_width :: nat
  root_height :: nat
  framebuffer :: "nat \<Rightarrow> nat \<Rightarrow> byte \<times> byte \<times> byte \<times> byte"

text \<open>\<open>root.get_geometry()\<close>.\<close>

definition get_geometry :: "xdisplay \<Rightarrow> error + nat \<times> nat" where
  "get_geometry d =
     (if connected d then Inr (root_width d, root_height d) else Inl ConnectionClosedError)"

text \<open>
  \<open>root.get_image(x, y, width, height, ZPixmap, 0xFFFFFFFF).data\<close>: the rows of the
  rectangle, four bytes per pixel; a rectangle that is not within the root window is a
  \<open>BadMatch\<close> error.
\<close>

definition get_image :: "xdisplay \<Rightarrow> int \<Rightarrow> int \<Rightarrow> int \<Rightarrow> int \<Rightarrow> error + byte list" where
  "get_image d x y w h =
     (if \<not> connected d then Inl ConnectionClosedError
      else if x < 0 \<or> y < 0 \<or> w < 0 \<or> h < 0
              \<or> x + w > int (root_width d) \<or> y + h > int (root_height d) then Inl BadMatch
      else Inr (concat (map (\<lambda>r. concat (map (\<lambda>c.
                   case framebuffer d (nat x + c) (nat y + r) of (b, g, r, x) \<Rightarrow> [b, g, r, x])
                 [0..<nat w])) [0..<nat h])))"

text \<open>\<open>X11ScreenCapture.capture_region\<close> and \<open>capture_fullscreen\<close>.\<close>

definition capture_region_x11 :: "xdisplay \<Rightarrow> int \<Rightarrow> int \<Rightarrow> int \<Rightarrow> int \<Rightarrow> error + pixbuf" where
  "capture_region_x11 d x y w h =
     (case get_image d x y w h of
        Inl e \<Rightarrow> Inl e
      | Inr raw \<Rightarrow>
          (case frombytes w h raw of
             Inl e \<Rightarrow> Inl e
           | Inr img \<Rightarrow> pil_to_pixbuf (convert_rgb img)))"

definition capture_fullscreen_x11 :: "xdisplay \<Rightarrow> error + pixbuf" where
  "capture_fullscreen_x11 d =
     (case get_geometry d of
        Inl e \<Rightarrow> Inl e
      | Inr (w, h) \<Rightarrow> capture_region_x11 d 0 0 (int w) (int h))"

text \<open>\<open>X11ScreenCapture.capture_freeform\<close>.\<close>

definition capture_freeform_x11 ::
  "rasteriser \<Rightarrow> xdisplay \<Rightarrow> int \<Rightarrow> int \<Rightarrow> int \<Rightarrow> int \<Rightarrow> (int \<times> int) list \<Rightarrow> error + pixbuf" where
  "capture_freeform_x11 polygon d x y w h points =
     (case get_image d x y w h of
        Inl e \<Rightarrow> Inl e
      | Inr raw \<Rightarrow>
          (case frombytes w h raw of
             Inl e \<Rightarrow> Inl e
           | Inr img \<Rightarrow>
               (case polygon_mask polygon x y w h points of
                  Inl e \<Rightarrow> Inl e
                | Inr msk \<Rightarrow>
                    (case putalpha (convert_rgba img) msk of
                       Inl e \<Rightarrow> Inl e
                     | Inr masked \<Rightarrow> pil_to_pixbuf masked))))"

text \<open>\<open>X11ScreenCapture.get_screen_size\<close> and \<open>close\<close>.\<close>

definition get_screen_size_x11 :: "xdisplay \<Rightarrow> error + nat \<times> nat" where
  "get_screen_size_x11 d =
     (case get_geometry d of Inl e \<Rightarrow> Inl e | Inr (w, h) \<Rightarrow> Inr (w, h))"

definition close_x11 :: "xdisplay \<Rightarrow> xdisplay" where
  "close_x11 d = d\<lparr>connected := False\<rparr>"

subsection \<open>The portal backend (services/screen\_capture\_portal.py)\<close>

text \<open>
  The session bus connection \<open>self._bus\<close>, as far as signal handlers go: the
  identifiers of the subscriptions that are in place, and the next identifier that
  \<open>signal_subscribe\<close> hands out.
\<close>

record bus =
  subscriptions :: "nat list"
  next_id :: nat

definition signal_subscribe :: "bus \<Rightarrow> nat \<times> bus" where
  "signal_subscribe b =
     (next_id b, b\<lparr>subscriptions := next_id b # subscriptions b, next_id := next_id b + 1\<rparr>)"

definition signal_unsubscribe :: "nat \<Rightarrow> bus \<Rightarrow> bus" where
  "signal_unsubscribe sub_id b = b\<lparr>subscriptions := removeAll sub_id (subscriptions b)\<rparr>"

text \<open>
  How a portal request goes: the method call \<open>call_sync\<close> raises \<open>GLib.Error\<close>; or it
  returns and no \<open>Response\<close> signal arrives before the 30 s timeout quits the loop; or
  it returns and the \<open>Response\<close> signal arrives with a response code and a dictionary
  of results.
\<close>

datatype 'r reply = CallFails string | NoResponse | Response nat 'r

text \<open>
  The desktop as the portal backend meets it: the portal's reply to a \<open>Screenshot\<close>
  request, given the \<open>interactive\<close> flag; the image files on disk; and
  \<open>_uri_to_path\<close> (\<open>urlparse\<close> and \<open>unquote\<close> of the standard library).
\<close>

record desktop =
  screenshot_reply :: "bool \<Rightarrow> (string \<rightharpoonup> string) reply"
  image_files :: "string \<rightharpoonup> pixbuf"
  uri_to_path :: "string \<Rightarrow> string"

text \<open>\<open>_screenshot\<close>: the file URI or the exception, and the bus afterwards.\<close>

definition screenshot :: "desktop \<Rightarrow> bool \<Rightarrow> bus \<Rightarrow> (error + string) \<times> bus" where
  "screenshot env interactive b =
     (case signal_subscribe b of (sub_id, b) \<Rightarrow>
        (case screenshot_reply env interactive of
           CallFails m \<Rightarrow> (Inl (GLibError m), b)
         | NoResponse \<Rightarrow>
             (Inl (RuntimeError ''No URI returned from screenshot portal''),
              signal_unsubscribe sub_id b)
         | Response response results \<Rightarrow>
             (case (if response = 0 then results ''uri'' else None) of
                Some uri \<Rightarrow> (Inr uri, signal_unsubscribe sub_id b)
              | None \<Rightarrow>
                  (Inl (RuntimeError (''Portal screenshot failed with response ''
                                       @ str_int (int response))),
                   signal_unsubscribe sub_id b))))"

text \<open>\<open>_load_uri\<close>: \<open>Pixbuf.new_from_file\<close> raises \<open>GLib.Error\<close> when there is no such image.\<close>

definition load_uri :: "desktop \<Rightarrow> string \<Rightarrow> error + pixbuf" where
  "load_uri env uri =
     (case image_files env (uri_to_path env uri) of
        None \<Rightarrow> Inl (GLibError ''Failed to open file'')
      | Some pb \<Rightarrow> Inr pb)"

text \<open>\<open>PortalScreenCapture.capture_fullscreen\<close> and \<open>capture_region\<close>.\<close>

definition capture_fullscreen_portal :: "desktop \<Rightarrow> bus \<Rightarrow> (error + pixbuf) \<times> bus" where
  "capture_fullscreen_portal env b =
     (case screenshot env False b of
        (Inl e, b) \<Rightarrow> (Inl e, b)
      | (Inr uri, b) \<Rightarrow> (load_uri env uri, b))"

definition capture_region_portal ::
  "desktop \<Rightarrow> bus \<Rightarrow> int \<Rightarrow> int \<Rightarrow> int \<Rightarrow> int \<Rightarrow> (error + pixbuf option) \<times> bus" where
  "capture_region_portal env b x y w h =
     (case screenshot env False b of
        (Inl e, b) \<Rightarrow> (Inl e, b)
      | (Inr uri, b) \<Rightarrow>
          (case load_uri env uri of
             Inl e \<Rightarrow> (Inl e, b)
           | Inr pb \<Rightarrow> (Inr (new_subpixbuf pb x y w h), b)))"

text \<open>\<open>PortalScreenCapture.capture_freeform\<close>.\<close>

definition capture_freeform_portal ::
  "rasteriser \<Rightarrow> desktop \<Rightarrow> bus \<Rightarrow> int \<Rightarrow> int \<Rightarrow> int \<Rightarrow> int \<Rightarrow> (int \<times> int) list
     \<Rightarrow> (error + pixbuf) \<times> bus" where
  "capture_freeform_portal polygon env b x y w h points =
     (case screenshot env False b of
        (Inl e, b) \<Rightarrow> (Inl e, b)
      | (Inr uri, b) \<Rightarrow>
          (case load_uri env uri of
             Inl e \<Rightarrow> (Inl e, b)
           | Inr pb \<Rightarrow>
               (case crop (convert_rgba (pixbuf_to_pil pb)) x y w h of
                  Inl e \<Rightarrow> (Inl e, b)
                | Inr cropped \<Rightarrow>
                    (case polygon_mask polygon x y w h points of
                       Inl e \<Rightarrow> (Inl e, b)
                     | Inr msk \<Rightarrow>
                         (case putalpha cropped msk of
                            Inl e \<Rightarrow> (Inl e, b)
                          | Inr masked \<Rightarrow> (pil_to_pixbuf masked, b))))))"

text \<open>\<open>PortalScreenCapture.get_screen_size\<close>: every exception is caught.\<close>

definition get_screen_size_portal :: "desktop \<Rightarrow> bus \<Rightarrow> (nat \<times> nat) \<times> bus" where
  "get_screen_size_portal env b =
     (case screenshot env False b of
        (Inl e, b) \<Rightarrow> ((1920, 1080), b)
      | (Inr uri, b) \<Rightarrow>
          (case load_uri env uri of
             Inl e \<Rightarrow> ((1920, 1080), b)
           | Inr pb \<Rightarrow> ((pb_width pb, pb_height pb), b)))"

text \<open>
  What \<open>start_screencast\<close> meets: \<open>CreateSession\<close> raises or returns a session
  handle, \<open>SelectSources\<close> raises or returns, and the \<open>Start\<close> request is answered
  like a screenshot request, the results holding the node identifiers of the streams.
\<close>

record screencast =
  create_session :: "string + string"
  select_sources :: "string + unit"
  start_reply :: "(string \<rightharpoonup> nat list) reply"

text \<open>\<open>start_screencast\<close>: the PipeWire node or the exception, and the bus afterwards.\<close>

definition start_screencast :: "screencast \<Rightarrow> bus \<Rightarrow> (error + string) \<times> bus" where
  "start_screencast env b =
     (case create_session env of
        Inl m \<Rightarrow> (Inl (GLibError m), b)
      | Inr session_handle \<Rightarrow>
          (case select_sources env of
             Inl m \<Rightarrow> (Inl (GLibError m), b)
           | Inr u \<Rightarrow>
               (case signal_subscribe b of (sub_id, b) \<Rightarrow>
                  (case start_reply env of
                     CallFails m \<Rightarrow> (Inl (GLibError m), b)
                   | NoResponse \<Rightarrow>
                       (Inl (RuntimeError ''Failed to get PipeWire node from screencast portal''),
                        signal_unsubscribe sub_id b)
                   | Response response results \<Rightarrow>
                       (case (if response = 0 then results ''streams'' else None) of
                          Some (node # others) \<Rightarrow>
                            (Inr (str_int (int node)), signal_unsubscribe sub_id b)
                        | _ \<Rightarrow>
                            (Inl (RuntimeError
                                    ''Failed to get PipeWire node from screencast portal''),
                             signal_unsubscribe sub_id b))))))"

subsection \<open>Observations on captured images\<close>

text \<open>
  A pixbuf whose pixel data fits its header: as many rows as its height, as many pixels
  in a row as its width, as many bytes in a pixel as it has channels.
\<close>

definition wf_pixbuf :: "pixbuf \<Rightarrow> bool" where
  "wf_pixbuf pb =
     (length (pb_pixels pb) = pb_height pb
      \<and> (\<forall>row \<in> set (pb_pixels pb).
            length row = pb_width pb
            \<and> (\<forall>p \<in> set row. length p = (if has_alpha pb then 4 else 3))))"

text \<open>The same colours, with an alpha channel that is \<open>a\<close> everywhere.\<close>

definition with_alpha :: "byte \<Rightarrow> pixbuf \<Rightarrow> pixbuf" where
  "with_alpha a pb =
     pb\<lparr>has_alpha := True, pb_pixels := map (map (\<lambda>p. take 3 p @ [a])) (pb_pixels pb)\<rparr>"

text \<open>Whether no pixel lets anything through: the pixbuf has no alpha channel, or alpha is 255 everywhere.\<close>

definition fully_opaque :: "pixbuf \<Rightarrow> bool" where
  "fully_opaque pb =
     (\<not> has_alpha pb \<or> (\<forall>row \<in> set (pb_pixels pb). \<forall>p \<in> set row. drop 3 p = [255]))"

subsection \<open>Example inputs for the capture backends\<close>

text \<open>A root window of three by two pixels, each pixel telling its position.\<close>

definition ex_display :: xdisplay where
  "ex_display =
     \<lparr>connected = True, root_width = 3, root_height = 2,
      framebuffer = (\<lambda>c r. (of_nat (10 * r + c), of_nat (100 + 10 * r + c),
                             of_nat (200 + 10 * r + c), 255))\<rparr>"

text \<open>A rasteriser; which one is of no account for a polygon of fewer than three points.\<close>

definition ex_polygon :: rasteriser where
  "ex_polygon points msk = msk"

text \<open>A bus without subscriptions, a two by two screenshot file, and portals that serve it.\<close>

definition ex_bus :: bus where
  "ex_bus = \<lparr>subscriptions = [], next_id = 1\<rparr>"

definition ex_shot :: pixbuf where
  "ex_shot =
     \<lparr>has_alpha = False, pb_width = 2, pb_height = 2,
      pb_pixels = [[[1, 2, 3], [4, 5, 6]], [[7, 8, 9], [10, 11, 12]]]\<rparr>"

definition ex_desktop :: desktop where
  "ex_desktop =
     \<lparr>screenshot_reply = (\<lambda>interactive. Response 0 [''uri'' \<mapsto> ''file:///tmp/shot.png'']),
      image_files = [''/tmp/shot.png'' \<mapsto> ex_shot],
      uri_to_path = drop 7\<rparr>"

text \<open>A desktop without a portal service: the method call itself fails.\<close>

definition ex_desktop_no_portal :: desktop where
  "ex_desktop_no_portal =
     ex_desktop\<lparr>screenshot_reply := (\<lambda>interactive. CallFails ''ServiceUnknown'')\<rparr>"

definition ex_screencast_start_fails :: screencast where
  "ex_screencast_start_fails =
     \<lparr>create_session = Inr ''/org/freedesktop/portal/desktop/session/1_1/snipr_session_1'',
      select_sources = Inr (), start_reply = CallFails ''AccessDenied''\<rparr>"

text \<open>
  The colours on the screen: the pixel in column \<open>c\<close> and row \<open>r\<close> as R, G, B, and the
  rectangle of width \<open>w\<close> and height \<open>h\<close> at \<open>(x, y)\<close> as an opaque pixbuf.
\<close>

definition screen_rgb :: "xdisplay \<Rightarrow> nat \<Rightarrow> nat \<Rightarrow> byte list" where
  "screen_rgb d c r = (case framebuffer d c r of (b, g, r, x) \<Rightarrow> [r, g, b])"

definition screen_rect :: "xdisplay \<Rightarrow> nat \<Rightarrow> nat \<Rightarrow> nat \<Rightarrow> nat \<Rightarrow> pixbuf" where
  "screen_rect d x y w h =
     \<lparr>has_alpha = False, pb_width = w, pb_height = h,
      pb_pixels = map (\<lambda>r. map (\<lambda>c. screen_rgb d (x + c) (y + r)) [0..<w]) [0..<h]\<rparr>"

section \<open>Properties of the display server detection\<close>

text \<open>
  C7. \<open>get_display_server\<close> is a total function of the environment (it has no failing
  branch) and its answer is the one of the first signal that decides, in the order
  session type, backend override, Wayland display handle, X11 display handle, with
  \<open>UNKNOWN\<close> when none decides. In particular a session type \<open>wayland\<close> gives
  \<open>WAYLAND\<close> whatever \<open>DISPLAY\<close> is set to.
\<close>

theorem detect_first_match_priority:
  "get_display_server e = detect_by_priority e \<and>
   get_display_server (e(''DISPLAY'' \<mapsto> d, ''XDG_SESSION_TYPE'' \<mapsto> ''wayland'')) = WAYLAND"
proof
  show "get_display_server e = detect_by_priority e"
    by (simp add: get_display_server_def detect_by_priority_def named_server_def Let_def)
  have "lower ''wayland'' = ''wayland''"
    by code_simp
  then show "get_display_server (e(''DISPLAY'' \<mapsto> d, ''XDG_SESSION_TYPE'' \<mapsto> ''wayland'')) = WAYLAND"
    by (simp add: get_display_server_def environ_get_def)
qed

theorem detect_first_match_priority_witness:
  "get_display_server [''XDG_SESSION_TYPE'' \<mapsto> ''Wayland'', ''GDK_BACKEND'' \<mapsto> ''x11''] = WAYLAND \<and>
   get_display_server [''DISPLAY'' \<mapsto> '':0'', ''XDG_SESSION_TYPE'' \<mapsto> ''wayland''] = WAYLAND"
proof -
  have a: "detect_by_priority [''XDG_SESSION_TYPE'' \<mapsto> ''Wayland'', ''GDK_BACKEND'' \<mapsto> ''x11''] = WAYLAND"
    by code_simp
  show ?thesis
    using detect_first_match_priority [of "[''XDG_SESSION_TYPE'' \<mapsto> ''Wayland'', ''GDK_BACKEND'' \<mapsto> ''x11'']" "'':0''"]
      detect_first_match_priority [of "Map.empty" "'':0''"] a
    by simp
qed

section \<open>Properties of the recording supervisor\<close>

subsection \<open>The record of calls\<close>

lemma state_notifications_append [simp]:
  "state_notifications (xs @ ys) = state_notifications xs @ state_notifications ys"
  by (induction xs rule: state_notifications.induct) simp_all

lemma completions_append [simp]: "completions (xs @ ys) = completions xs @ completions ys"
  by (induction xs rule: completions.induct) simp_all

lemma failures_append [simp]: "failures (xs @ ys) = failures xs @ failures ys"
  by (induction xs rule: failures.induct) simp_all

lemma launches_append [simp]: "launches (xs @ ys) = launches xs @ launches ys"
  by (induction xs rule: launches.induct) simp_all

lemma calls_emit [simp]: "calls (emit e w) = calls w @ [e]"
  by (simp add: emit_def)

lemma fs_emit [simp]: "fs (emit e w) = fs w"
  by (simp add: emit_def)

text \<open>What a state assignment leaves alone.\<close>

lemma set_state_state [simp]: "state (fst (set_state st sw)) = st"
  by (simp add: set_state_def split: prod.splits)

lemma set_state_fs [simp]: "fs (snd (set_state st sw)) = fs (snd sw)"
  by (simp add: set_state_def split: prod.splits)

lemma set_state_more:
  "process (fst (set_state st sw)) = process (fst sw)"
  "current_path (fst (set_state st sw)) = current_path (fst sw)"
  "timer_id (fst (set_state st sw)) = timer_id (fst sw)"
  "display_server (fst (set_state st sw)) = display_server (fst sw)"
  "pipewire_node_id (fst (set_state st sw)) = pipewire_node_id (fst sw)"
  "on_state_changed (fst (set_state st sw)) = on_state_changed (fst sw)"
  "on_recording_completed (fst (set_state st sw)) = on_recording_completed (fst sw)"
  "on_recording_failed (fst (set_state st sw)) = on_recording_failed (fst sw)"
  by (simp_all add: set_state_def split: prod.splits)

lemma set_state_calls:
  "calls (snd (set_state st sw)) =
     calls (snd sw) @ (if state (fst sw) \<noteq> st \<and> on_state_changed (fst sw) then [StateChanged st] else [])"
  by (simp add: set_state_def split: prod.splits)

lemma set_state_same: "set_state (state s) (s, w) = (s, w)"
  by (simp add: set_state_def)

lemma build_video_size:
  "build_ffmpeg_command env s (Some (x, y, w, h)) = Inr cmd \<Longrightarrow> \<not> uses_pipewire s \<Longrightarrow>
   video_size_arg cmd = Some (str_int w @ ''x'' @ str_int h)"
  by (auto simp: build_ffmpeg_command_def uses_pipewire_def Let_def
      split: DisplayServer.splits option.splits list.splits)

lemma build_pipewire_ignores_region:
  "uses_pipewire s \<Longrightarrow> build_ffmpeg_command env s region = build_ffmpeg_command env s None"
  by (auto simp: build_ffmpeg_command_def uses_pipewire_def Let_def
      split: DisplayServer.splits option.splits list.splits)

lemma even_up: "even (w + w mod 2)" for w :: int
  by presburger

lemma even_up_eq: "w + w mod 2 = (if even w then w else w + 1)" for w :: int
  by presburger

lemma start_recording_launches:
  "\<exists>new. launches (calls (snd (snd (start_recording env region sw)))) = launches (calls (snd sw)) @ new \<and>
     (\<forall>cmd \<in> set new. build_ffmpeg_command env
         ((fst sw)\<lparr>state := PREPARING, current_path := Some (gettempdir env @ ''/snipr'' @ ''/Recording_'' @ timestamp env @ ''.mp4'')\<rparr>) region = Inr cmd)"
  apply (cases sw)
  apply (auto simp: start_recording_def set_state_def Let_def mkdir_exist_ok_def report_failed_def start_duration_timer_def
      split: sum.splits option.splits fs_node.splits prod.splits if_splits)
  done

subsection \<open>Even dimensions\<close>

text \<open>
  C6. \<open>start_recording_region\<close> passes on a width and a height that are even: an odd
  one is incremented by one, an even one is kept. When the call launches an encoder
  that grabs the X11 display, its \<open>-video_size\<close> argument is made of these two
  numbers. An encoder that reads a PipeWire node is given no dimensions at all.
\<close>

theorem region_dimensions_forced_even:
  fixes width height :: int
  shows "\<exists>w h. even w \<and> even h
     \<and> w = (if even width then width else width + 1)
     \<and> h = (if even height then height else height + 1)
     \<and> start_recording_region env x y width height sw = start_recording env (Some (x, y, w, h)) sw
     \<and> (\<exists>new. launches (calls (snd (snd (start_recording_region env x y width height sw))))
                  = launches (calls (snd sw)) @ new
           \<and> (\<forall>cmd \<in> set new.
                 uses_pipewire (fst sw) \<or> video_size_arg cmd = Some (str_int w @ ''x'' @ str_int h)))"
proof -
  let ?w = "width + width mod 2" and ?h = "height + height mod 2"
  let ?s = "(fst sw)\<lparr>state := PREPARING,
      current_path := Some (gettempdir env @ ''/snipr'' @ ''/Recording_'' @ timestamp env @ ''.mp4'')\<rparr>"
  have eq: "start_recording_region env x y width height sw = start_recording env (Some (x, y, ?w, ?h)) sw"
    by (simp add: start_recording_region_def Let_def)
  obtain new where new:
    "launches (calls (snd (snd (start_recording env (Some (x, y, ?w, ?h)) sw)))) = launches (calls (snd sw)) @ new"
    "\<forall>cmd \<in> set new. build_ffmpeg_command env ?s (Some (x, y, ?w, ?h)) = Inr cmd"
    using start_recording_launches by blast
  have pw: "uses_pipewire ?s = uses_pipewire (fst sw)"
    by (simp add: uses_pipewire_def)
  have "\<forall>cmd \<in> set new. uses_pipewire (fst sw) \<or> video_size_arg cmd = Some (str_int ?w @ ''x'' @ str_int ?h)"
    using new(2) build_video_size pw by blast
  with new(1) eq show ?thesis
    using even_up even_up_eq by (metis (no_types, lifting))
qed

theorem region_dimensions_forced_even_witness:
  "map video_size_arg
     (launches (calls (snd (snd (start_recording_region ex_env 0 0 101 151 (ex_service, ex_world))))))
   = [Some ''102x152'']"
proof -
  have run: "map video_size_arg
     (launches (calls (snd (snd (start_recording_region ex_env 0 0 101 151 (ex_service, ex_world))))))
   = [Some ''102x152'']"
    by code_simp
  show ?thesis
    using region_dimensions_forced_even [of 101 151 ex_env 0 0 "(ex_service, ex_world)"] run
    by simp
qed

subsection \<open>Which states accept a start\<close>

lemma build_ok:
  "current_path s \<noteq> None \<Longrightarrow> \<exists>cmd. build_ffmpeg_command env s region = Inr cmd"
  by (auto simp: build_ffmpeg_command_def Let_def)

lemma set_state_pair:
  "set_state st (s, w) =
     (if state s \<noteq> st
      then (s\<lparr>state := st\<rparr>, if on_state_changed s then emit (StateChanged st) w else w)
      else (s, w))"
  by (simp add: set_state_def)

lemma start_busy: "state (fst sw) \<in> {RECORDING, PREPARING, STOPPING} \<Longrightarrow> start_recording env region sw = (None, sw)"
  by (simp add: start_recording_def)

lemma start_accepted:
  assumes "state (fst sw) \<notin> {RECORDING, PREPARING, STOPPING}"
  shows "case start_recording env region sw of (e, s', w') \<Rightarrow>
           (\<exists>rest. calls w' = calls (snd (set_state PREPARING sw)) @ rest \<and>
              (case e of
                 Some x \<Rightarrow> state s' = PREPARING \<and> launches rest = []
               | None \<Rightarrow> (\<exists>cmd. launches rest = [cmd] \<and>
                    (case popen env cmd of
                       Inr p \<Rightarrow> state s' = RECORDING \<and> process s' = Some p
                     | Inl m \<Rightarrow> state s' = FAILED \<and> process s' = process (fst sw)))))"
proof -
  obtain s1 w1 where p: "set_state PREPARING sw = (s1, w1)"
    by (cases "set_state PREPARING sw")
  have s1: "state s1 = PREPARING" "process s1 = process (fst sw)"
    using set_state_state [of PREPARING sw] set_state_more(1) [of PREPARING sw] by (simp_all add: p)
  let ?dir = "gettempdir env @ ''/snipr''"
  show ?thesis
  proof (cases "mkdir_exist_ok w1 ?dir")
    case (Inl e)
    then show ?thesis
      using assms by (simp add: start_recording_def p s1)
  next
    case (Inr w2)
    then have w2: "calls w2 = calls w1"
      by (auto simp: mkdir_exist_ok_def split: option.splits fs_node.splits)
    let ?s2 = "s1\<lparr>current_path := Some (?dir @ ''/Recording_'' @ timestamp env @ ''.mp4'')\<rparr>"
    have "current_path ?s2 \<noteq> None"
      by simp
    then obtain cmd where cmd: "build_ffmpeg_command env ?s2 region = Inr cmd"
      using build_ok by blast
    show ?thesis
    proof (cases "popen env cmd")
      case (Inl m)
      then show ?thesis
        using assms Inr cmd w2 s1
        by (simp add: start_recording_def p Let_def report_failed_def set_state_pair)
    next
      case (Inr pr)
      then show ?thesis
        using assms \<open>mkdir_exist_ok w1 ?dir = Inr w2\<close> cmd w2 s1
        by (simp add: start_recording_def p Let_def start_duration_timer_def set_state_pair)
    qed
  qed
qed

lemma start_accepted_changes:
  assumes "state (fst sw) \<notin> {RECORDING, PREPARING, STOPPING}"
  shows "start_recording env region sw \<noteq> (None, sw)"
proof
  assume eq: "start_recording env region sw = (None, sw)"
  from start_accepted [OF assms, of env region]
  obtain rest cmd where "calls (snd sw) = calls (snd (set_state PREPARING sw)) @ rest" "launches rest = [cmd]"
    by (auto simp: eq split: prod.splits)
  then have "length (launches (calls (snd sw))) = length (launches (calls (snd (set_state PREPARING sw)))) + 1"
    by (metis launches_append length_append length_Cons list.size(3) One_nat_def add.right_neutral add_Suc_right)
  then show False
    by (simp add: set_state_calls)
qed




subsection \<open>Cancelling\<close>

lemma stop_duration_timer_keeps:
  "state (fst (stop_duration_timer sw)) = state (fst sw)"
  "process (fst (stop_duration_timer sw)) = process (fst sw)"
  "current_path (fst (stop_duration_timer sw)) = current_path (fst sw)"
  "on_state_changed (fst (stop_duration_timer sw)) = on_state_changed (fst sw)"
  "on_recording_completed (fst (stop_duration_timer sw)) = on_recording_completed (fst sw)"
  "on_recording_failed (fst (stop_duration_timer sw)) = on_recording_failed (fst sw)"
  "fs (snd (stop_duration_timer sw)) = fs (snd sw)"
  by (simp_all add: stop_duration_timer_def split: prod.splits option.splits)

lemma stop_duration_timer_calls:
  "calls (snd (stop_duration_timer sw)) =
     calls (snd sw) @ (case timer_id (fst sw) of Some t \<Rightarrow> [SourceRemove t] | None \<Rightarrow> [])"
  by (simp add: stop_duration_timer_def split: prod.splits option.splits)




subsection \<open>Stopping a recording that ends well\<close>

lemma has_job_set_state: "st \<noteq> RECORDING \<Longrightarrow> recording_has_job (fst (set_state st sw))"
  by (simp add: recording_has_job_def)

lemma report_failed_fst [simp]: "fst (report_failed m sw) = fst sw"
  by (simp add: report_failed_def split: prod.splits)

lemma report_completed_fst [simp]: "fst (report_completed m sw) = fst sw"
  by (simp add: report_completed_def split: prod.splits)

lemma has_job_start: "recording_has_job (fst sw) \<Longrightarrow> recording_has_job (fst (snd (start_recording env region sw)))"
  by (cases sw) (auto simp: start_recording_def recording_has_job_def Let_def set_state_pair start_duration_timer_def mkdir_exist_ok_def
      split: sum.splits prod.splits option.splits fs_node.splits)

lemma has_job_step:
  assumes "recording_has_job (fst sw)"
  shows "recording_has_job (fst (step x sw))"
proof (cases x)
  case (StartRegion env x y w h)
  then show ?thesis using has_job_start assms by (simp add: start_recording_region_def Let_def)
next
  case (StartFullscreen env)
  then show ?thesis using has_job_start assms by (simp add: start_recording_fullscreen_def)
next
  case (StartWindow env x y w h)
  then show ?thesis using has_job_start assms by (simp add: start_recording_window_def start_recording_region_def Let_def)
next
  case Stop
  then show ?thesis
    using assms by (cases sw) (auto simp: stop_recording_def recording_has_job_def stop_duration_timer_def set_state_pair split: option.splits prod.splits)
next
  case (Idle cb)
  then show ?thesis
    using assms by (cases sw) (auto simp: run_idle_def recording_has_job_def split: idle_callback.splits option.splits list.splits)
next
  case Cancel
  then show ?thesis
    using assms by (cases sw) (auto simp: cancel_recording_def recording_has_job_def split: prod.splits)
next
  case Tick
  then show ?thesis
    using assms by (cases sw) (auto simp: tick_def recording_has_job_def Let_def)
next
  case Cleanup
  then show ?thesis
    using assms by (cases sw) (auto simp: cleanup_def cancel_recording_def recording_has_job_def split: prod.splits)
qed (use assms in \<open>auto simp: set_pipewire_node_def stop_worker_def recording_has_job_def split: prod.splits\<close>)

lemma has_job_run: "recording_has_job (fst sw) \<Longrightarrow> recording_has_job (fst (run ops sw))"
  by (induction ops arbitrary: sw) (simp_all add: has_job_step)

text \<open>
  C5. Take any history of a service that began in \<open>IDLE\<close> and is now in \<open>RECORDING\<close>,
  with \<open>on_recording_completed\<close> installed. If \<open>stop_recording\<close> is called, the encoder
  exits with code 0 and the output path holds a file of non-zero size, then once the
  worker's callback has run the state is \<open>COMPLETED\<close> and, from the stop on,
  \<open>on_recording_completed\<close> was called exactly once, with the output path, and
  \<open>on_recording_failed\<close> not at all.
\<close>

theorem stop_clean_exit_completes_once:
  assumes "(s, w) = run ops (s0, w0)" and "state s0 = IDLE"
    and "state s = RECORDING" and "on_recording_completed s"
    and "current_path s = Some path" and "fs w path = Some (File n)" and "0 < n"
  shows "case stop_and_drain (Exited 0 stderr_data) (s, w) of (s', w') \<Rightarrow>
           state s' = COMPLETED
           \<and> (\<exists>new. calls w' = calls w @ new \<and> completions new = [path] \<and> failures new = [])"
proof -
  have "recording_has_job s0"
    using assms(2) by (simp add: recording_has_job_def)
  then have "recording_has_job (fst (run ops (s0, w0)))"
    using has_job_run [of "(s0, w0)" ops] by simp
  then have job: "process s \<noteq> None" "path \<noteq> []"
    using assms(1,3,5) by (auto simp: recording_has_job_def dest: arg_cong [where f = fst])
  then obtain p c cs where "process s = Some p" "path = c # cs"
    by (cases path) auto
  then show ?thesis
    using assms(3-7)
    by (auto simp: stop_and_drain_def stop_recording_def stop_worker_def run_idle_def
      stop_duration_timer_def set_state_pair report_completed_def exists_def getsize_def Let_def
      split: prod.splits option.splits)
qed

theorem stop_clean_exit_completes_once_witness:
  "state (fst ex_completed) = COMPLETED \<and> completions (calls (snd ex_completed)) = [ex_path]"
proof -
  obtain s w where sw: "(s, w) = run [StartFullscreen ex_env] (ex_service, ex_world_file)"
    by (cases "run [StartFullscreen ex_env] (ex_service, ex_world_file)") simp
  have eq: "(s, w) = snd (start_recording_fullscreen ex_env (ex_service, ex_world_file))"
    using sw by simp
  have a: "state (fst (snd (start_recording_fullscreen ex_env (ex_service, ex_world_file)))) = RECORDING"
      "on_recording_completed (fst (snd (start_recording_fullscreen ex_env (ex_service, ex_world_file))))"
      "current_path (fst (snd (start_recording_fullscreen ex_env (ex_service, ex_world_file)))) = Some ex_path"
      "fs (snd (snd (start_recording_fullscreen ex_env (ex_service, ex_world_file)))) ex_path = Some (File 1024)"
      "calls (snd (snd (start_recording_fullscreen ex_env (ex_service, ex_world_file)))) =
         [StateChanged PREPARING, Popen [''ffmpeg'', ''-y'', ''-f'', ''x11grab'', ''-framerate'', ''30'',
            ''-draw_mouse'', ''0'', ''-i'', '':0'', ''-c:v'', ''libx264'', ''-preset'', ''ultrafast'',
            ''-crf'', ''23'', ''-pix_fmt'', ''yuv420p'', ''-r'', ''30'', ex_path],
          StateChanged RECORDING, TimeoutAdd 7]"
    by code_simp+
  have b: "state ex_service = IDLE"
    by (simp add: ex_service_def VideoRecordingService_def)
  have "case stop_and_drain (Exited 0 []) (s, w) of (s', w') \<Rightarrow>
           state s' = COMPLETED
           \<and> (\<exists>new. calls w' = calls w @ new \<and> completions new = [ex_path] \<and> failures new = [])"
    using stop_clean_exit_completes_once [OF sw b, of ex_path 1024 "[]"] a
    by (simp add: eq [symmetric])
  then show ?thesis
    using a(5) by (auto simp: ex_completed_def eq [symmetric] split: prod.splits)
qed

subsection \<open>State notifications\<close>

lemma consistent_set_state:
  "notified_consistent sw \<Longrightarrow> notified_consistent (set_state st sw)"
  by (cases sw)
    (auto simp: notified_consistent_def set_state_pair Let_def distinct_adj_append_iff)

lemma consistent_emit:
  "\<forall>st. e \<noteq> StateChanged st \<Longrightarrow> notified_consistent (s, emit e w) = notified_consistent (s, w)"
  by (cases e) (auto simp: notified_consistent_def)


lemma consistent_cong:
  "state (fst a) = state (fst b) \<Longrightarrow> on_state_changed (fst a) = on_state_changed (fst b) \<Longrightarrow>
   state_notifications (calls (snd a)) = state_notifications (calls (snd b)) \<Longrightarrow>
   notified_consistent a = notified_consistent b"
  by (simp add: notified_consistent_def)

lemma consistent_report_failed:
  "notified_consistent (report_failed m sw) = notified_consistent sw"
  by (rule consistent_cong) (auto simp: report_failed_def split: prod.splits)

lemma consistent_report_completed:
  "notified_consistent (report_completed m sw) = notified_consistent sw"
  by (rule consistent_cong) (auto simp: report_completed_def split: prod.splits)

lemma consistent_start_timer:
  "notified_consistent (start_duration_timer env sw) = notified_consistent sw"
  by (rule consistent_cong) (auto simp: start_duration_timer_def split: prod.splits)

lemma consistent_stop_timer:
  "notified_consistent (stop_duration_timer sw) = notified_consistent sw"
  by (rule consistent_cong) (auto simp: stop_duration_timer_def split: prod.splits option.splits)

lemma consistent_start:
  assumes "notified_consistent sw"
  shows "notified_consistent (snd (start_recording env region sw))"
proof (cases "state (fst sw) \<in> {RECORDING, PREPARING, STOPPING}")
  case True
  then show ?thesis using assms by (simp add: start_recording_def)
next
  case False
  obtain s1 w1 where p: "set_state PREPARING sw = (s1, w1)"
    by (cases "set_state PREPARING sw")
  have c1: "notified_consistent (s1, w1)"
    using consistent_set_state [OF assms, of PREPARING] by (simp add: p)
  have upd: "notified_consistent (s1\<lparr>current_path := cp\<rparr>, w2) = notified_consistent (s1, w1)"
    if "calls w2 = calls w1" for cp w2
    by (rule consistent_cong) (simp_all add: that)
  have upd2: "notified_consistent (s1\<lparr>current_path := cp, process := pr, duration_seconds := d\<rparr>, emit (Popen cmd) w2)
      = notified_consistent (s1, w1)"
    if "calls w2 = calls w1" for cp w2 pr d cmd
    by (rule consistent_cong) (simp_all add: that)
  have upd3: "notified_consistent (s1\<lparr>current_path := cp\<rparr>, emit (Popen cmd) w2) = notified_consistent (s1, w1)"
    if "calls w2 = calls w1" for cp w2 cmd
    by (rule consistent_cong) (simp_all add: that)
  have mk: "calls w2 = calls w1" if "mkdir_exist_ok w1 d = Inr w2" for d w2
    using that by (auto simp: mkdir_exist_ok_def split: option.splits fs_node.splits)
  show ?thesis
    using False c1 mk
    by (auto simp: start_recording_def p Let_def consistent_report_failed consistent_start_timer
        upd upd2 upd3 intro!: consistent_set_state split: sum.splits)
qed


lemma consistent_stop:
  assumes "notified_consistent sw"
  shows "notified_consistent (fst (stop_recording sw))"
proof -
  have "notified_consistent (stop_duration_timer (set_state STOPPING sw))"
    using assms by (simp add: consistent_stop_timer consistent_set_state)
  moreover have "notified_consistent (s\<lparr>process := None\<rparr>, w) = notified_consistent (s, w)" for s w
    by (rule consistent_cong) simp_all
  ultimately show ?thesis
    using assms by (auto simp: stop_recording_def split: option.splits prod.splits)
qed

lemma consistent_worker:
  "notified_consistent (fst sw, snd (stop_worker p outcome sw)) = notified_consistent sw"
  by (rule consistent_cong)
    (auto simp: stop_worker_def Let_def split: prod.splits communicate.splits)

lemma consistent_run_idle:
  "notified_consistent sw \<Longrightarrow> notified_consistent (run_idle cb sw)"
  by (auto simp: run_idle_def consistent_report_failed consistent_report_completed
      consistent_set_state split: idle_callback.splits option.splits list.splits)

lemma consistent_cancel:
  assumes "notified_consistent sw"
  shows "notified_consistent (cancel_recording sw)"
proof -
  obtain s w where t: "stop_duration_timer sw = (s, w)"
    by (cases "stop_duration_timer sw")
  have c: "notified_consistent (s, w)"
    using assms consistent_stop_timer [of sw] by (simp add: t)
  have "notified_consistent (s', w') = notified_consistent (s, w)"
    if "state s' = state s" "on_state_changed s' = on_state_changed s"
       "state_notifications (calls w') = state_notifications (calls w)" for s' w'
    by (rule consistent_cong) (simp_all add: that)
  then show ?thesis
    using c
    by (auto simp: cancel_recording_def t os_remove_def Let_def intro!: consistent_set_state
        split: option.splits list.splits sum.splits fs_node.splits prod.splits)
qed

lemma consistent_tick:
  "notified_consistent (snd (tick sw)) = notified_consistent sw"
  by (rule consistent_cong) (auto simp: tick_def Let_def split: prod.splits)

lemma consistent_set_node:
  "notified_consistent (set_pipewire_node n sw) = notified_consistent sw"
  by (rule consistent_cong) (auto simp: set_pipewire_node_def split: prod.splits)

lemma consistent_step:
  "notified_consistent sw \<Longrightarrow> notified_consistent (step x sw)"
  by (cases x)
    (simp_all add: consistent_start consistent_stop consistent_worker consistent_run_idle
      consistent_cancel consistent_tick consistent_set_node cleanup_def
      start_recording_region_def start_recording_window_def start_recording_fullscreen_def Let_def)

lemma consistent_run:
  "notified_consistent sw \<Longrightarrow> notified_consistent (run ops sw)"
  by (induction ops arbitrary: sw) (simp_all add: consistent_step)

text \<open>
  C10. Assigning the state its current value changes nothing and notifies nobody.
  Hence, in every history of a service that starts with no call made, no two
  successive calls of \<open>on_state_changed\<close> carry the same state; and
  \<open>cancel_recording\<close> in state \<open>IDLE\<close> adds no state notification.
\<close>

theorem state_changed_only_on_change:
  "set_state (state s) (s, w) = (s, w)
   \<and> (calls w0 = [] \<longrightarrow> distinct_adj (state_notifications (calls (snd (run ops (s0, w0))))))
   \<and> (state s = IDLE \<longrightarrow>
        state_notifications (calls (snd (cancel_recording (s, w)))) = state_notifications (calls w))"
proof (intro conjI impI)
  show "set_state (state s) (s, w) = (s, w)"
    by (rule set_state_same)
next
  assume "calls w0 = []"
  then have "notified_consistent (s0, w0)"
    by (simp add: notified_consistent_def)
  then have "notified_consistent (run ops (s0, w0))"
    by (rule consistent_run)
  then show "distinct_adj (state_notifications (calls (snd (run ops (s0, w0)))))"
    by (simp add: notified_consistent_def Let_def)
next
  assume "state s = IDLE"
  then show "state_notifications (calls (snd (cancel_recording (s, w)))) = state_notifications (calls w)"
    by (auto simp: cancel_recording_def stop_duration_timer_def set_state_pair os_remove_def
        split: prod.splits option.splits list.splits sum.splits fs_node.splits)
qed

theorem state_changed_only_on_change_witness:
  "state_notifications (calls (snd (run [StartFullscreen ex_env, Cancel, Cancel, StartFullscreen ex_env, Stop]
       (ex_service, ex_world))))
     = [PREPARING, RECORDING, IDLE, PREPARING, RECORDING, STOPPING]
   \<and> state_notifications (calls (snd (cancel_recording (ex_service, ex_world)))) = []"
proof -
  have a: "state_notifications (calls (snd (run [StartFullscreen ex_env, Cancel, Cancel, StartFullscreen ex_env, Stop]
       (ex_service, ex_world))))
     = [PREPARING, RECORDING, IDLE, PREPARING, RECORDING, STOPPING]"
    by code_simp
  have b: "calls ex_world = []" "state ex_service = IDLE"
    by (simp_all add: ex_world_def ex_service_def VideoRecordingService_def)
  show ?thesis
    using state_changed_only_on_change [of ex_service ex_world ex_world
        "[StartFullscreen ex_env, Cancel, Cancel, StartFullscreen ex_env, Stop]" ex_service] a b
    by simp
qed

section \<open>Properties of the capture backends\<close>

subsection \<open>Decoding what the X server sends\<close>

lemma unpack_bgrx_append:
  "4 dvd length xs \<Longrightarrow> unpack_bgrx (xs @ ys) = unpack_bgrx xs @ unpack_bgrx ys"
proof (induction xs rule: unpack_bgrx.induct)
  case (1 b g r x rest)
  have "length (b # g # r # x # rest) = 4 + length rest"
    by simp
  with "1.prems" have "4 dvd length rest"
    by (simp only: dvd_add_triv_left_iff)
  with "1.IH" show ?case
    by simp
qed (auto dest: dvd_imp_le)

lemma unpack_bgrx_row:
  "unpack_bgrx (concat (map (\<lambda>c. case f c of (b, g, r, x) \<Rightarrow> [b, g, r, x]) cs))
     = map (\<lambda>c. case f c of (b, g, r, x) \<Rightarrow> [r, g, b, x]) cs"
  by (induction cs) (auto split: prod.splits)

lemma length_row_bytes:
  "length (concat (map (\<lambda>c. case f c of (b, g, r, x) \<Rightarrow> [b, g, r, x]) cs)) = 4 * length cs"
  by (induction cs) (auto split: prod.splits)

lemma unpack_bgrx_rows:
  "unpack_bgrx (concat (map (\<lambda>r. concat (map (\<lambda>c. case f c r of (b, g, r, x) \<Rightarrow> [b, g, r, x]) cs)) rs))
     = concat (map (\<lambda>r. map (\<lambda>c. case f c r of (b, g, r, x) \<Rightarrow> [r, g, b, x]) cs) rs)"
proof (induction rs)
  case Nil
  then show ?case by simp
next
  case (Cons r rs)
  have "4 dvd length (concat (map (\<lambda>c. case f c r of (b, g, r, x) \<Rightarrow> [b, g, r, x]) cs))"
    by (simp add: length_row_bytes)
  then show ?case
    using Cons by (simp add: unpack_bgrx_append unpack_bgrx_row)
qed

lemma length_rows_bytes:
  "length (concat (map (\<lambda>r. concat (map (\<lambda>c. case f c r of (b, g, r, x) \<Rightarrow> [b, g, r, x]) cs)) rs))
     = 4 * length cs * length rs"
  by (induction rs) (simp_all add: length_row_bytes)

lemma chunk_rows_concat:
  "\<forall>r \<in> set rs. length r = w \<Longrightarrow> chunk_rows w (length rs) (concat rs) = rs"
  by (induction rs) simp_all

lemma chunk_rows_map:
  "chunk_rows (length cs) (length rs) (concat (map (\<lambda>r. map (g r) cs) rs)) = map (\<lambda>r. map (g r) cs) rs"
  using chunk_rows_concat [of "map (\<lambda>r. map (g r) cs) rs" "length cs"] by simp

lemma capture_region_x11_screen:
  assumes "connected d" and "0 \<le> x" and "0 \<le> y" and "0 < w" and "0 < h"
    and "x + w \<le> int (root_width d)" and "y + h \<le> int (root_height d)"
  shows "capture_region_x11 d x y w h = Inr (screen_rect d (nat x) (nat y) (nat w) (nat h))"
proof -
  let ?f = "\<lambda>c r. framebuffer d (nat x + c) (nat y + r)"
  let ?data = "concat (map (\<lambda>r. concat (map (\<lambda>c. case ?f c r of (b, g, r, x) \<Rightarrow> [b, g, r, x]) [0..<nat w])) [0..<nat h])"
  have g: "get_image d x y w h = Inr ?data"
    using assms by (simp add: get_image_def)
  have len: "length ?data = 4 * nat w * nat h"
    by (simp add: length_rows_bytes)
  have dec: "chunk_rows (nat w) (nat h) (unpack_bgrx ?data)
      = map (\<lambda>r. map (\<lambda>c. case ?f c r of (b, g, r, x) \<Rightarrow> [r, g, b, x]) [0..<nat w]) [0..<nat h]"
    using chunk_rows_map [of "[0..<nat w]" "[0..<nat h]" "\<lambda>r c. case ?f c r of (b, g, r, x) \<Rightarrow> [r, g, b, x]"]
    by (simp add: unpack_bgrx_rows)
  have f: "frombytes w h ?data = Inr \<lparr>mode = RGBX, im_width = nat w, im_height = nat h,
      pixels = map (\<lambda>r. map (\<lambda>c. case ?f c r of (b, g, r, x) \<Rightarrow> [r, g, b, x]) [0..<nat w]) [0..<nat h]\<rparr>"
    using assms(4,5) len dec by (simp add: frombytes_def)
  show ?thesis
    using assms(4,5)
    by (simp add: capture_region_x11_def g f convert_rgb_def pil_to_pixbuf_def to_rgb_def
        screen_rect_def screen_rgb_def comp_def split: prod.splits)
qed

subsection \<open>A region is the crop of the full screen\<close>

lemma map_shift_upt: "map f [n..<n + m] = map (\<lambda>i. f (n + i)) [0..<m]"
proof -
  have "[n..<n + m] = map (\<lambda>i. n + i) [0..<m]"
    using map_add_upt [of n m] by (simp add: add.commute)
  then show ?thesis
    by (simp add: comp_def)
qed

lemma crop_rows_grid:
  assumes "x + w \<le> W" and "y + h \<le> H"
  shows "crop_rows x y w h (map (\<lambda>r. map (\<lambda>c. g c r) [0..<W]) [0..<H])
     = map (\<lambda>r. map (\<lambda>c. g (x + c) (y + r)) [0..<w]) [0..<h]"
proof -
  have rows: "take h (drop y (map (\<lambda>r. map (\<lambda>c. g c r) [0..<W]) [0..<H]))
      = map (\<lambda>r. map (\<lambda>c. g c (y + r)) [0..<W]) [0..<h]"
    using assms(2) by (simp add: drop_map take_map map_shift_upt)
  have cols: "take w (drop x (map (\<lambda>c. g c r) [0..<W])) = map (\<lambda>c. g (x + c) r) [0..<w]" for r
    using assms(1) by (simp add: drop_map take_map map_shift_upt)
  show ?thesis
    by (simp add: crop_rows_def rows cols comp_def)
qed

lemma capture_fullscreen_x11_screen:
  assumes "connected d" and "0 < root_width d" and "0 < root_height d"
  shows "capture_fullscreen_x11 d = Inr (screen_rect d 0 0 (root_width d) (root_height d))"
  using assms capture_region_x11_screen [of d 0 0 "int (root_width d)" "int (root_height d)"]
  by (simp add: capture_fullscreen_x11_def get_geometry_def)

lemma subpixbuf_screen_rect:
  assumes "0 \<le> x" and "0 \<le> y" and "0 < w" and "0 < h" and "x + w \<le> int W" and "y + h \<le> int H"
  shows "new_subpixbuf (screen_rect d 0 0 W H) x y w h = Some (screen_rect d (nat x) (nat y) (nat w) (nat h))"
proof -
  have "nat x + nat w \<le> W" "nat y + nat h \<le> H"
    using assms by linarith+
  then have "crop_rows (nat x) (nat y) (nat w) (nat h)
       (map (\<lambda>r. map (\<lambda>c. screen_rgb d c r) [0..<W]) [0..<H])
     = map (\<lambda>r. map (\<lambda>c. screen_rgb d (nat x + c) (nat y + r)) [0..<nat w]) [0..<nat h]"
    by (rule crop_rows_grid)
  then show ?thesis
    using assms by (simp add: new_subpixbuf_def screen_rect_def)
qed

lemma capture_region_portal_crop:
  "capture_region_portal env b x y w h =
     (case capture_fullscreen_portal env b of
        (Inl e, b') \<Rightarrow> (Inl e, b')
      | (Inr full, b') \<Rightarrow> (Inr (new_subpixbuf full x y w h), b'))"
  by (simp add: capture_region_portal_def capture_fullscreen_portal_def
      split: prod.splits sum.splits)

text \<open>An empty rectangle gives no image, neither as a region nor as a crop.\<close>

lemma empty_rectangle_no_image:
  assumes "w = 0 \<or> h = 0"
  shows "(\<exists>e. capture_region_x11 d x y w h = Inl e) \<and> new_subpixbuf full x y w h = None"
proof -
  have "\<exists>e. pil_to_pixbuf (convert_rgb img) = Inl e" if "frombytes w h raw = Inr img" for raw img
  proof -
    have "im_width img = nat w" "im_height img = nat h"
      using that by (auto simp: frombytes_def split: if_splits)
    then show ?thesis
      using assms by (auto simp: pil_to_pixbuf_def convert_rgb_def)
  qed
  then have "\<exists>e. capture_region_x11 d x y w h = Inl e"
    by (auto simp: capture_region_x11_def split: sum.splits)
  then show ?thesis
    using assms by (auto simp: new_subpixbuf_def)
qed

text \<open>
  C1. On the X11 backend, for every rectangle of positive width and height within the
  root window, \<open>capture_region\<close> and \<open>capture_fullscreen\<close> both return an image, and
  the image of the region is exactly the full-screen image cropped to the rectangle
  (and is the rectangle of the screen's colours). On the portal backend,
  \<open>capture_region\<close> returns the crop of what \<open>capture_fullscreen\<close> returns for the
  same reply of the portal, for every rectangle within the screenshot.
\<close>

theorem region_equals_cropped_fullscreen:
  "(connected d \<and> 0 \<le> x \<and> 0 \<le> y \<and> 0 < w \<and> 0 < h
      \<and> x + w \<le> int (root_width d) \<and> y + h \<le> int (root_height d) \<longrightarrow>
      (\<exists>full r. capture_fullscreen_x11 d = Inr full
         \<and> capture_region_x11 d x y w h = Inr r
         \<and> new_subpixbuf full x y w h = Some r
         \<and> r = screen_rect d (nat x) (nat y) (nat w) (nat h)))
   \<and> (capture_fullscreen_portal env b = (Inr shot, b')
      \<and> 0 \<le> x \<and> 0 \<le> y \<and> 0 < w \<and> 0 < h
      \<and> x + w \<le> int (pb_width shot) \<and> y + h \<le> int (pb_height shot) \<longrightarrow>
      (\<exists>r. capture_region_portal env b x y w h = (Inr (Some r), b')
         \<and> new_subpixbuf shot x y w h = Some r))"
proof (intro conjI impI)
  assume a: "connected d \<and> 0 \<le> x \<and> 0 \<le> y \<and> 0 < w \<and> 0 < h
      \<and> x + w \<le> int (root_width d) \<and> y + h \<le> int (root_height d)"
  then have pos: "0 < root_width d" "0 < root_height d"
    by linarith+
  have full: "capture_fullscreen_x11 d = Inr (screen_rect d 0 0 (root_width d) (root_height d))"
    using a pos by (simp add: capture_fullscreen_x11_screen)
  have r: "capture_region_x11 d x y w h = Inr (screen_rect d (nat x) (nat y) (nat w) (nat h))"
    using a by (simp add: capture_region_x11_screen)
  have "new_subpixbuf (screen_rect d 0 0 (root_width d) (root_height d)) x y w h
      = Some (screen_rect d (nat x) (nat y) (nat w) (nat h))"
    using a by (simp add: subpixbuf_screen_rect)
  with full r show "\<exists>full r. capture_fullscreen_x11 d = Inr full
         \<and> capture_region_x11 d x y w h = Inr r
         \<and> new_subpixbuf full x y w h = Some r
         \<and> r = screen_rect d (nat x) (nat y) (nat w) (nat h)"
    by simp
next
  assume a: "capture_fullscreen_portal env b = (Inr shot, b')
      \<and> 0 \<le> x \<and> 0 \<le> y \<and> 0 < w \<and> 0 < h
      \<and> x + w \<le> int (pb_width shot) \<and> y + h \<le> int (pb_height shot)"
  then have "new_subpixbuf shot x y w h \<noteq> None"
    by (simp add: new_subpixbuf_def)
  then show "\<exists>r. capture_region_portal env b x y w h = (Inr (Some r), b')
         \<and> new_subpixbuf shot x y w h = Some r"
    using a by (auto simp: capture_region_portal_crop)
qed

theorem region_equals_cropped_fullscreen_witness:
  "capture_region_x11 ex_display 1 1 2 1
     = Inr \<lparr>has_alpha = False, pb_width = 2, pb_height = 1,
            pb_pixels = [[[211, 111, 11], [212, 112, 12]]]\<rparr>
   \<and> capture_region_portal ex_desktop ex_bus 1 0 1 2
     = (Inr (Some \<lparr>has_alpha = False, pb_width = 1, pb_height = 2,
                   pb_pixels = [[[4, 5, 6]], [[10, 11, 12]]]\<rparr>),
        \<lparr>subscriptions = [], next_id = 2\<rparr>)"
proof -
  have d: "connected ex_display" "root_width ex_display = 3" "root_height ex_display = 2"
    by (simp_all add: ex_display_def)
  have rect: "screen_rect ex_display (nat 1) (nat 1) (nat 2) (nat 1)
      = \<lparr>has_alpha = False, pb_width = 2, pb_height = 1,
         pb_pixels = [[[211, 111, 11], [212, 112, 12]]]\<rparr>"
    by code_simp
  have shot: "capture_fullscreen_portal ex_desktop ex_bus = (Inr ex_shot, \<lparr>subscriptions = [], next_id = 2\<rparr>)"
    by code_simp
  have dims: "pb_width ex_shot = 2" "pb_height ex_shot = 2"
    by (simp_all add: ex_shot_def)
  have sub: "new_subpixbuf ex_shot 1 0 1 2
      = Some \<lparr>has_alpha = False, pb_width = 1, pb_height = 2,
              pb_pixels = [[[4, 5, 6]], [[10, 11, 12]]]\<rparr>"
    by code_simp
  show ?thesis
    using region_equals_cropped_fullscreen [of ex_display 1 1 2 1 ex_desktop ex_bus ex_shot
        "\<lparr>subscriptions = [], next_id = 2\<rparr>"]
      region_equals_cropped_fullscreen [of ex_display 1 0 1 2 ex_desktop ex_bus ex_shot
        "\<lparr>subscriptions = [], next_id = 2\<rparr>"]
      d rect shot dims sub
    by auto
qed

subsection \<open>A polygon of fewer than three points\<close>

lemma map2_replicate:
  "length xs = n \<Longrightarrow> map2 f xs (replicate n a) = map (\<lambda>x. f x a) xs"
  by (simp add: zip_replicate2 comp_def)

lemma putalpha_black:
  assumes "length rows = h" and "\<forall>row \<in> set rows. length row = w"
  shows "map2 (map2 (\<lambda>p m. take 3 p @ take 1 m)) rows (replicate h (replicate w [0]))
     = map (map (\<lambda>p. take 3 p @ [0])) rows"
proof -
  have "map2 (\<lambda>p m. take 3 p @ take 1 m) row (replicate w [0]) = map (\<lambda>p. take 3 p @ [0]) row"
    if "row \<in> set rows" for row
    using that assms(2) by (simp add: map2_replicate)
  then show ?thesis
    using assms(1) by (simp add: map2_replicate)
qed

lemma polygon_mask_degenerate:
  "length points < 3 \<Longrightarrow> 0 \<le> w \<Longrightarrow> 0 \<le> h \<Longrightarrow>
   polygon_mask polygon x y w h points
     = Inr \<lparr>mode = L, im_width = nat w, im_height = nat h,
            pixels = replicate (nat h) (replicate (nat w) [0])\<rparr>"
  by (simp add: polygon_mask_def new_L_def)

lemma capture_region_x11_Inr:
  assumes "capture_region_x11 d x y w h = Inr r"
  shows "connected d \<and> 0 \<le> x \<and> 0 \<le> y \<and> 0 < w \<and> 0 < h
      \<and> x + w \<le> int (root_width d) \<and> y + h \<le> int (root_height d)"
proof -
  obtain raw where raw: "get_image d x y w h = Inr raw"
    using assms by (auto simp: capture_region_x11_def split: sum.splits)
  then have box: "connected d \<and> 0 \<le> x \<and> 0 \<le> y \<and> 0 \<le> w \<and> 0 \<le> h
      \<and> x + w \<le> int (root_width d) \<and> y + h \<le> int (root_height d)"
    by (auto simp: get_image_def split: if_splits)
  obtain img where img: "frombytes w h raw = Inr img" "pil_to_pixbuf (convert_rgb img) = Inr r"
    using assms raw by (auto simp: capture_region_x11_def split: sum.splits)
  then have "im_width img = nat w" "im_height img = nat h"
    by (auto simp: frombytes_def split: if_splits)
  moreover have "im_width (convert_rgb img) \<noteq> 0 \<and> im_height (convert_rgb img) \<noteq> 0"
    using img(2) by (auto simp: pil_to_pixbuf_def split: if_splits)
  ultimately have "0 < w \<and> 0 < h"
    by (simp add: convert_rgb_def)
  with box show ?thesis
    by simp
qed

lemma capture_freeform_x11_degenerate:
  assumes "connected d" and "0 \<le> x" and "0 \<le> y" and "0 < w" and "0 < h"
    and "x + w \<le> int (root_width d)" and "y + h \<le> int (root_height d)"
    and "length points < 3"
  shows "capture_freeform_x11 polygon d x y w h points
     = Inr (with_alpha 0 (screen_rect d (nat x) (nat y) (nat w) (nat h)))"
proof -
  let ?f = "\<lambda>c r. framebuffer d (nat x + c) (nat y + r)"
  let ?data = "concat (map (\<lambda>r. concat (map (\<lambda>c. case ?f c r of (b, g, r, x) \<Rightarrow> [b, g, r, x]) [0..<nat w])) [0..<nat h])"
  let ?rows = "map (\<lambda>r. map (\<lambda>c. case ?f c r of (b, g, r, x) \<Rightarrow> [r, g, b, x]) [0..<nat w]) [0..<nat h]"
  have g: "get_image d x y w h = Inr ?data"
    using assms by (simp add: get_image_def)
  have len: "length ?data = 4 * nat w * nat h"
    by (simp add: length_rows_bytes)
  have dec: "chunk_rows (nat w) (nat h) (unpack_bgrx ?data) = ?rows"
    using chunk_rows_map [of "[0..<nat w]" "[0..<nat h]" "\<lambda>r c. case ?f c r of (b, g, r, x) \<Rightarrow> [r, g, b, x]"]
    by (simp add: unpack_bgrx_rows)
  have f: "frombytes w h ?data = Inr \<lparr>mode = RGBX, im_width = nat w, im_height = nat h, pixels = ?rows\<rparr>"
    using assms(4,5) len dec by (simp add: frombytes_def)
  have m: "polygon_mask polygon x y w h points
     = Inr \<lparr>mode = L, im_width = nat w, im_height = nat h,
            pixels = replicate (nat h) (replicate (nat w) [0])\<rparr>"
    using assms by (simp add: polygon_mask_degenerate)
  let ?rgba = "map (map (to_rgba RGBX)) ?rows"
  have black: "map2 (map2 (\<lambda>p m. take 3 p @ take 1 m)) ?rgba (replicate (nat h) (replicate (nat w) [0]))
     = map (map (\<lambda>p. take 3 p @ [0])) ?rgba"
    by (rule putalpha_black) auto
  have pa: "putalpha (convert_rgba \<lparr>mode = RGBX, im_width = nat w, im_height = nat h, pixels = ?rows\<rparr>)
        \<lparr>mode = L, im_width = nat w, im_height = nat h,
         pixels = replicate (nat h) (replicate (nat w) [0])\<rparr>
      = Inr \<lparr>mode = RGBA, im_width = nat w, im_height = nat h,
             pixels = map (map (\<lambda>p. take 3 p @ [0])) ?rgba\<rparr>"
    using black by (simp add: putalpha_def convert_rgba_def)
  have "capture_freeform_x11 polygon d x y w h points
      = pil_to_pixbuf \<lparr>mode = RGBA, im_width = nat w, im_height = nat h,
             pixels = map (map (\<lambda>p. take 3 p @ [0])) ?rgba\<rparr>"
    by (simp only: capture_freeform_x11_def g f m pa sum.case)
  also have "\<dots> = Inr \<lparr>has_alpha = True, pb_width = nat w, pb_height = nat h,
             pb_pixels = map (map (\<lambda>p. take 3 p @ [0])) ?rgba\<rparr>"
    using assms(4,5) by (simp add: pil_to_pixbuf_def)
  also have "\<dots> = Inr (with_alpha 0 (screen_rect d (nat x) (nat y) (nat w) (nat h)))"
    by (simp add: to_rgba_def to_rgb_def with_alpha_def screen_rect_def screen_rgb_def comp_def
        split: prod.splits)
  finally show ?thesis .
qed


lemma rows_grid:
  assumes "length rows = H" and "\<forall>row \<in> set rows. length row = W"
  shows "rows = map (\<lambda>r. map (\<lambda>c. rows ! r ! c) [0..<W]) [0..<H]"
proof (rule nth_equalityI)
  show "length rows = length (map (\<lambda>r. map (\<lambda>c. rows ! r ! c) [0..<W]) [0..<H])"
    using assms(1) by simp
next
  fix i
  assume i: "i < length rows"
  then have "length (rows ! i) = W"
    using assms(2) by simp
  then have "rows ! i = map (\<lambda>c. rows ! i ! c) [0..<W]"
    by (auto intro!: nth_equalityI)
  then show "rows ! i = map (\<lambda>r. map (\<lambda>c. rows ! r ! c) [0..<W]) [0..<H] ! i"
    using i assms(1) by simp
qed

lemma crop_rows_nth:
  assumes "length rows = H" and "\<forall>row \<in> set rows. length row = W"
    and "x + w \<le> W" and "y + h \<le> H"
  shows "crop_rows x y w h rows = map (\<lambda>r. map (\<lambda>c. rows ! (y + r) ! (x + c)) [0..<w]) [0..<h]"
proof -
  have "crop_rows x y w h (map (\<lambda>r. map (\<lambda>c. rows ! r ! c) [0..<W]) [0..<H])
      = map (\<lambda>r. map (\<lambda>c. rows ! (y + r) ! (x + c)) [0..<w]) [0..<h]"
    using assms(3,4) by (rule crop_rows_grid)
  then show ?thesis
    using rows_grid [OF assms(1,2)] by simp
qed

lemma capture_freeform_portal_degenerate:
  assumes shot: "capture_fullscreen_portal env b = (Inr full, b')"
    and wf: "wf_pixbuf full"
    and region: "capture_region_portal env b x y w h = (Inr (Some r), b')"
    and few: "length points < 3"
  shows "capture_freeform_portal polygon env b x y w h points = (Inr (with_alpha 0 r), b')"
proof -
  obtain uri where s: "screenshot env False b = (Inr uri, b')" and l: "load_uri env uri = Inr full"
    using shot by (auto simp: capture_fullscreen_portal_def split: prod.splits sum.splits)
  have sub: "new_subpixbuf full x y w h = Some r"
    using region by (simp add: capture_region_portal_def s l)
  then have box: "0 \<le> x" "0 \<le> y" "0 < w" "0 < h"
      "x + w \<le> int (pb_width full)" "y + h \<le> int (pb_height full)"
    by (auto simp: new_subpixbuf_def split: if_splits)
  let ?rows = "pb_pixels full"
  let ?m = "if has_alpha full then RGBA else RGB"
  have len: "length ?rows = pb_height full" "\<forall>row \<in> set ?rows. length row = pb_width full"
    using wf by (simp_all add: wf_pixbuf_def)
  have nbox: "nat x + nat w \<le> pb_width full" "nat y + nat h \<le> pb_height full"
    using box by linarith+
  have r: "r = \<lparr>has_alpha = has_alpha full, pb_width = nat w, pb_height = nat h,
      pb_pixels = map (\<lambda>i. map (\<lambda>j. ?rows ! (nat y + i) ! (nat x + j)) [0..<nat w]) [0..<nat h]\<rparr>"
    using sub box crop_rows_nth [OF len nbox] by (simp add: new_subpixbuf_def)
  let ?im = "convert_rgba (pixbuf_to_pil full)"
  have at: "pixel_at ?im (x + int j) (y + int i) = to_rgba ?m (?rows ! (nat y + i) ! (nat x + j))"
    if "i < nat h" "j < nat w" for i j
  proof -
    have i: "nat y + i < length ?rows"
      using that nbox len(1) by simp
    then have "length (?rows ! (nat y + i)) = pb_width full"
      using len(2) by simp
    then have j: "nat x + j < length (?rows ! (nat y + i))"
      using that nbox by simp
    have n: "nat (y + int i) = nat y + i" "nat (x + int j) = nat x + j"
      using box by simp_all
    have inside: "0 \<le> x + int j" "x + int j < int (pb_width full)"
        "0 \<le> y + int i" "y + int i < int (pb_height full)"
      using that box by linarith+
    show ?thesis
      using i j len(1) inside
      by (simp add: pixel_at_def convert_rgba_def pixbuf_to_pil_def n)
  qed
  let ?cropped = "map (\<lambda>i. map (\<lambda>j. to_rgba ?m (?rows ! (nat y + i) ! (nat x + j))) [0..<nat w]) [0..<nat h]"
  have "map (\<lambda>i. map (\<lambda>j. pixel_at ?im (x + int j) (y + int i)) [0..<nat w]) [0..<nat h] = ?cropped"
    using at by simp
  then have c: "crop ?im x y w h = Inr \<lparr>mode = RGBA, im_width = nat w, im_height = nat h, pixels = ?cropped\<rparr>"
    using box by (simp add: crop_def convert_rgba_def pixbuf_to_pil_def)
  have m: "polygon_mask polygon x y w h points
     = Inr \<lparr>mode = L, im_width = nat w, im_height = nat h,
            pixels = replicate (nat h) (replicate (nat w) [0])\<rparr>"
    using few box by (simp add: polygon_mask_degenerate)
  have black: "map2 (map2 (\<lambda>p m. take 3 p @ take 1 m)) ?cropped (replicate (nat h) (replicate (nat w) [0]))
     = map (map (\<lambda>p. take 3 p @ [0])) ?cropped"
    by (rule putalpha_black) auto
  have pa: "putalpha \<lparr>mode = RGBA, im_width = nat w, im_height = nat h, pixels = ?cropped\<rparr>
        \<lparr>mode = L, im_width = nat w, im_height = nat h,
         pixels = replicate (nat h) (replicate (nat w) [0])\<rparr>
      = Inr \<lparr>mode = RGBA, im_width = nat w, im_height = nat h,
             pixels = map (map (\<lambda>p. take 3 p @ [0])) ?cropped\<rparr>"
    using black by (simp add: putalpha_def)
  have three: "take 3 (to_rgba ?m (?rows ! (nat y + i) ! (nat x + j))) = take 3 (?rows ! (nat y + i) ! (nat x + j))"
    if "i < nat h" "j < nat w" for i j
  proof -
    have i: "nat y + i < length ?rows"
      using that nbox len(1) by simp
    then have row: "?rows ! (nat y + i) \<in> set ?rows"
      by simp
    then have "length (?rows ! (nat y + i)) = pb_width full"
      using len(2) by simp
    then have "nat x + j < length (?rows ! (nat y + i))"
      using that nbox by simp
    then have "?rows ! (nat y + i) ! (nat x + j) \<in> set (?rows ! (nat y + i))"
      by simp
    then have "length (?rows ! (nat y + i) ! (nat x + j)) = (if has_alpha full then 4 else 3)"
      using wf row by (simp add: wf_pixbuf_def)
    then show ?thesis
      by (simp add: to_rgba_def to_rgb_def)
  qed
  have "capture_freeform_portal polygon env b x y w h points
      = (pil_to_pixbuf \<lparr>mode = RGBA, im_width = nat w, im_height = nat h,
             pixels = map (map (\<lambda>p. take 3 p @ [0])) ?cropped\<rparr>, b')"
    by (simp only: capture_freeform_portal_def s l c m pa sum.case prod.case)
  also have "\<dots> = (Inr \<lparr>has_alpha = True, pb_width = nat w, pb_height = nat h,
             pb_pixels = map (map (\<lambda>p. take 3 p @ [0])) ?cropped\<rparr>, b')"
    using box by (simp add: pil_to_pixbuf_def)
  also have "\<dots> = (Inr (with_alpha 0 r), b')"
    using three by (simp add: with_alpha_def r comp_def)
  finally show ?thesis .
qed

text \<open>
  C2, as the code has it. For a polygon of fewer than three points nothing is drawn on
  the mask, which stays black, and the black mask is then put in place of the alpha
  channel. So whenever \<open>capture_region\<close> returns an image for the box,
  \<open>capture_freeform\<close> returns an image of the same size with the same colours and with
  alpha 0 everywhere: the box is fully transparent, not fully opaque. This holds on
  both backends (on the portal backend for a well-formed screenshot file).
\<close>

theorem degenerate_freeform_is_transparent_region:
  "(capture_region_x11 d x y w h = Inr r \<and> length points < 3 \<longrightarrow>
      capture_freeform_x11 polygon d x y w h points = Inr (with_alpha 0 r))
   \<and> (capture_fullscreen_portal env b = (Inr shot, b') \<and> wf_pixbuf shot
        \<and> capture_region_portal env b x y w h = (Inr (Some r'), b') \<and> length points < 3 \<longrightarrow>
      capture_freeform_portal polygon env b x y w h points = (Inr (with_alpha 0 r'), b'))"
proof (intro conjI impI)
  assume a: "capture_region_x11 d x y w h = Inr r \<and> length points < 3"
  then have box: "connected d \<and> 0 \<le> x \<and> 0 \<le> y \<and> 0 < w \<and> 0 < h
      \<and> x + w \<le> int (root_width d) \<and> y + h \<le> int (root_height d)"
    using capture_region_x11_Inr by blast
  then have "r = screen_rect d (nat x) (nat y) (nat w) (nat h)"
    using a capture_region_x11_screen [of d x y w h] by simp
  then show "capture_freeform_x11 polygon d x y w h points = Inr (with_alpha 0 r)"
    using a box capture_freeform_x11_degenerate [of d x y w h points polygon] by simp
next
  assume "capture_fullscreen_portal env b = (Inr shot, b') \<and> wf_pixbuf shot
        \<and> capture_region_portal env b x y w h = (Inr (Some r'), b') \<and> length points < 3"
  then show "capture_freeform_portal polygon env b x y w h points = (Inr (with_alpha 0 r'), b')"
    using capture_freeform_portal_degenerate by blast
qed

theorem degenerate_freeform_is_transparent_region_witness:
  "capture_freeform_x11 ex_polygon ex_display 1 1 2 1 [(1, 1), (2, 1)]
     = Inr \<lparr>has_alpha = True, pb_width = 2, pb_height = 1,
            pb_pixels = [[[211, 111, 11, 0], [212, 112, 12, 0]]]\<rparr>
   \<and> capture_freeform_portal ex_polygon ex_desktop ex_bus 1 0 1 2 []
     = (Inr \<lparr>has_alpha = True, pb_width = 1, pb_height = 2,
             pb_pixels = [[[4, 5, 6, 0]], [[10, 11, 12, 0]]]\<rparr>,
        \<lparr>subscriptions = [], next_id = 2\<rparr>)"
proof -
  have x: "capture_region_x11 ex_display 1 1 2 1
     = Inr \<lparr>has_alpha = False, pb_width = 2, pb_height = 1,
            pb_pixels = [[[211, 111, 11], [212, 112, 12]]]\<rparr>"
    by code_simp
  have p: "capture_fullscreen_portal ex_desktop ex_bus = (Inr ex_shot, \<lparr>subscriptions = [], next_id = 2\<rparr>)"
      "capture_region_portal ex_desktop ex_bus 1 0 1 2
         = (Inr (Some \<lparr>has_alpha = False, pb_width = 1, pb_height = 2,
                       pb_pixels = [[[4, 5, 6]], [[10, 11, 12]]]\<rparr>),
            \<lparr>subscriptions = [], next_id = 2\<rparr>)"
    by code_simp+
  have wf: "wf_pixbuf ex_shot"
    by (simp add: wf_pixbuf_def ex_shot_def)
  have n: "length [(1::int, 1::int), (2, 1)] < 3" "length ([] :: (int \<times> int) list) < 3"
    by simp_all
  show ?thesis
    using degenerate_freeform_is_transparent_region
        [of ex_display 1 1 2 1 _ "[(1, 1), (2, 1)]" ex_polygon ex_desktop ex_bus ex_shot
          "\<lparr>subscriptions = [], next_id = 2\<rparr>"]
      degenerate_freeform_is_transparent_region
        [of ex_display 1 0 1 2 _ "[]" ex_polygon ex_desktop ex_bus ex_shot
          "\<lparr>subscriptions = [], next_id = 2\<rparr>"]
      x p wf n
    by (simp add: with_alpha_def)
qed

theorem degenerate_freeform_not_opaque_counterexample:
  "capture_freeform_x11 ex_polygon ex_display 1 1 2 1 [(1, 1), (2, 1)]
     = Inr \<lparr>has_alpha = True, pb_width = 2, pb_height = 1,
            pb_pixels = [[[211, 111, 11, 0], [212, 112, 12, 0]]]\<rparr>
   \<and> \<not> fully_opaque \<lparr>has_alpha = True, pb_width = 2, pb_height = 1,
            pb_pixels = [[[211, 111, 11, 0], [212, 112, 12, 0]]]\<rparr>"
  by code_simp

subsection \<open>Signal subscriptions of the portal backend\<close>

lemma subscribe_unsubscribe:
  "next_id b \<notin> set (subscriptions b) \<Longrightarrow>
   subscriptions (signal_unsubscribe (fst (signal_subscribe b)) (snd (signal_subscribe b))) = subscriptions b"
  by (simp add: signal_subscribe_def signal_unsubscribe_def)

lemma screenshot_unsubscribes_on_response_and_timeout:
  assumes "next_id b \<notin> set (subscriptions b)" and "\<forall>m. screenshot_reply env interactive \<noteq> CallFails m"
  shows "subscriptions (snd (screenshot env interactive b)) = subscriptions b"
  using assms
  by (cases "screenshot_reply env interactive")
    (auto simp: screenshot_def signal_subscribe_def signal_unsubscribe_def split: option.splits)

lemma screenshot_leaks_when_call_fails:
  assumes "screenshot_reply env interactive = CallFails m"
  shows "subscriptions (snd (screenshot env interactive b)) = next_id b # subscriptions b"
  using assms by (simp add: screenshot_def signal_subscribe_def)

lemma start_screencast_leaks_when_start_fails:
  assumes "create_session env = Inr handle" and "select_sources env = Inr u" and "start_reply env = CallFails m"
  shows "subscriptions (snd (start_screencast env b)) = next_id b # subscriptions b"
  using assms by (simp add: start_screencast_def signal_subscribe_def)

text \<open>
  C8. The subscription is removed when the request is answered, with success or with
  an error code, and when the timeout passes
  (\<open>screenshot_unsubscribes_on_response_and_timeout\<close>). It is not removed when the
  method call itself raises, which it does on a desktop without a portal service:
  \<open>_screenshot\<close> and \<open>start_screencast\<close> then leave with the exception and with the
  subscription still in place, as evaluated here on a bus that had none.
\<close>

theorem portal_call_failure_leaks_subscription:
  "subscriptions ex_bus = []
   \<and> screenshot ex_desktop_no_portal False ex_bus
       = (Inl (GLibError ''ServiceUnknown''), \<lparr>subscriptions = [1], next_id = 2\<rparr>)
   \<and> start_screencast ex_screencast_start_fails ex_bus
       = (Inl (GLibError ''AccessDenied''), \<lparr>subscriptions = [1], next_id = 2\<rparr>)"
  by (simp add: ex_bus_def ex_desktop_no_portal_def ex_desktop_def ex_screencast_start_fails_def
      screenshot_def start_screencast_def signal_subscribe_def)

subsection \<open>The size of the screen\<close>

lemma get_screen_size_portal_fallback:
  "fst (screenshot env False b) = Inl e \<Longrightarrow> fst (get_screen_size_portal env b) = (1920, 1080)"
  by (auto simp: get_screen_size_portal_def split: prod.splits sum.splits)

lemma get_screen_size_x11_propagates:
  "\<not> connected d \<Longrightarrow> get_screen_size_x11 d = Inl ConnectionClosedError"
  by (simp add: get_screen_size_x11_def get_geometry_def)

text \<open>
  C9. The portal backend answers 1920 by 1080 whenever the screenshot fails. The X11
  backend has no such fallback: on an open connection it answers the size of the root
  window, and on a connection that has been closed the error of the geometry query is
  the result of \<open>get_screen_size\<close>.
\<close>

theorem x11_screen_size_propagates_error:
  "get_screen_size_x11 ex_display = Inr (3, 2)
   \<and> get_screen_size_x11 (close_x11 ex_display) = Inl ConnectionClosedError
   \<and> fst (get_screen_size_portal ex_desktop_no_portal ex_bus) = (1920, 1080)"
  by (simp add: get_screen_size_x11_def get_geometry_def close_x11_def ex_display_def
      get_screen_size_portal_def screenshot_def signal_subscribe_def ex_desktop_no_portal_def
      ex_desktop_def)

end
